theory Spec2Isabelle
  imports Complex_Main "HOL-Library.Product_Lexorder"
begin

section \<open>Numbers and angles\<close>

text \<open>
  The floats of Python and the DOUBLE columns of the database are read as real numbers:
  rounding is not modelled. The one non-finite value the code handles, an infinite
  \<open>error_radius\<close>, is kept as a value of its own.
\<close>

datatype pyfloat = Finite real | Infinite

text \<open>\<open>math.radians\<close>, SQL \<open>RADIANS\<close> and \<open>DEGREES\<close>.\<close>

definition radians :: "real \<Rightarrow> real" where
  "radians d = d * pi / 180"

definition degrees :: "real \<Rightarrow> real" where
  "degrees r = r * 180 / pi"

text \<open>SQL \<open>a BETWEEN lo AND hi\<close>: both ends belong to the band.\<close>

definition between :: "'a::linorder \<Rightarrow> 'a \<Rightarrow> 'a \<Rightarrow> bool" where
  "between a lo hi \<longleftrightarrow> lo \<le> a \<and> a \<le> hi"

text \<open>
  Modelled from the spec: \<open>tkp.utility.substitute_inf\<close> is imported by general.py and is
  not part of the sources. Spec 4.1, step 1: an infinite or unconstrained \<open>error_radius\<close>
  is replaced with the given substitute (360.0), a finite one is kept.
\<close>

definition substitute_inf :: "pyfloat \<Rightarrow> real \<Rightarrow> real" where
  "substitute_inf v substitute = (case v of Finite r \<Rightarrow> r | Infinite \<Rightarrow> substitute)"

text \<open>
  Modelled from the spec: \<open>tkp.utility.coordinates.eq_to_cart\<close> is imported by general.py
  and is not part of the sources. Spec 4.1, step 6: the point of the unit sphere at
  right ascension \<open>ra\<close> and declination \<open>decl\<close>, both in degrees.
\<close>

definition eq_to_cart :: "real \<Rightarrow> real \<Rightarrow> real \<times> real \<times> real" where
  "eq_to_cart ra decl =
     (cos (radians decl) * cos (radians ra),
      cos (radians decl) * sin (radians ra),
      sin (radians decl))"

text \<open>
  The RA inflation, \<open>alpha_inflate\<close> in Python and \<open>alpha\<close> in the database, is not part
  of the sources either, and the spec gives no formula for it. Every operation that
  calls it takes it as a parameter of this type: \<open>alpha theta decl\<close>.
\<close>

type_synonym inflation = "real \<Rightarrow> real \<Rightarrow> real"

section \<open>Tables\<close>

text \<open>
  One record per table, with the columns that general.py reads or writes, named with the
  alias the queries use. \<open>extractedsource\<close> has the 26 columns of the INSERT statement
  and the identifier the database assigns.
\<close>

record ex_row =
  ex_id :: int
  ex_ra :: real
  ex_decl :: real
  ex_ra_fit_err :: real
  ex_decl_fit_err :: real
  ex_f_peak :: real
  ex_f_peak_err :: real
  ex_f_int :: real
  ex_f_int_err :: real
  ex_det_sigma :: real
  ex_semimajor :: real
  ex_semiminor :: real
  ex_pa :: real
  ex_ew_sys_err :: real
  ex_ns_sys_err :: real
  ex_error_radius :: real
  ex_ra_err :: real
  ex_decl_err :: real
  ex_uncertainty_ew :: real
  ex_uncertainty_ns :: real
  ex_image :: int
  ex_zone :: int
  ex_x :: real
  ex_y :: real
  ex_z :: real
  ex_racosdecl :: real
  ex_extract_type :: int

record ax_row =
  ax_runcat :: int
  ax_xtrsrc :: int

record im_row =
  im_id :: int
  im_taustart_ts :: int
  im_tau_time :: real
  im_band :: int
  im_stokes :: int

record bd_row =
  bd_id :: int
  bd_freq_central :: real

record r_row =
  r_id :: int
  r_wm_ra :: real
  r_wm_decl :: real
  r_wm_uncertainty_ew :: real
  r_wm_uncertainty_ns :: real
  r_x :: real
  r_y :: real
  r_z :: real

record c_row =
  c_id :: int
  c_catsrcname :: string
  c_catalog :: int
  c_ra :: real
  c_decl :: real
  c_uncertainty_ew :: real
  c_uncertainty_ns :: real
  c_zone :: int
  c_x :: real
  c_y :: real
  c_z :: real

record k_row =
  k_id :: int
  k_name :: string

text \<open>
  The store: the tables in storage order, and the next identifier of the
  \<open>extractedsource\<close> sequence.
\<close>

record store =
  extractedsource :: "ex_row list"
  assocxtrsource :: "ax_row list"
  image_tbl :: "im_row list"
  frequencyband :: "bd_row list"
  runningcatalog :: "r_row list"
  catalogedsource :: "c_row list"
  catalog :: "k_row list"
  next_xtrsrc_id :: int

text \<open>
  What an operation raises, and what it writes to the module's logger. A call returns
  its value or the exception, together with the store it leaves behind.
\<close>

datatype error = ValueError string | DivisionByZero | DomainError

datatype log_record =
    NoSourcesAdded string int
  | NoForcedFitAdded int
  | InsertedSources nat int
  | InsertedNullDetections nat int
  | InsertedMonitoring nat int
  | NoUserEntryRemoved int
  | RemovedSources nat int

type_synonym 'a outcome = "(error + 'a) \<times> store"

section \<open>insert_extracted_sources\<close>

text \<open>
  A sourcefinder detection: the fifteen values \<open>src[0]\<close> to \<open>src[14]\<close>, in the order of
  the docstring.
\<close>

record detection =
  src_ra :: real
  src_dec :: real
  src_ra_fit_err :: real
  src_decl_fit_err :: real
  src_peak_flux :: real
  src_peak_flux_err :: real
  src_int_flux :: real
  src_int_flux_err :: real
  src_significance :: real
  src_beam_maj :: real
  src_beam_min :: real
  src_beam_pa :: real
  src_ew_sys_err :: real
  src_ns_sys_err :: real
  src_error_radius :: pyfloat

text \<open>The \<open>if\<close>/\<open>elif\<close> chain on \<open>extract\<close> at the end of the loop body.\<close>

definition extract_code :: "string \<Rightarrow> error + int" where
  "extract_code extract =
     (if extract = ''blind'' then Inr 0
      else if extract = ''ff_nd'' then Inr 1
      else if extract = ''ff_ms'' then Inr 2
      else Inl (ValueError extract))"

text \<open>
  The loop body: the row built from one detection. The identifier is the one the
  database will assign; the body computes every other column.
\<close>

definition make_row :: "inflation \<Rightarrow> int \<Rightarrow> string \<Rightarrow> int \<Rightarrow> detection \<Rightarrow> error + ex_row" where
  "make_row alpha_inflate image_id extract new_id src =
     (let r14 = substitute_inf (src_error_radius src) 360;
          ra_err = sqrt ((src_ra_fit_err src)\<^sup>2
                     + (alpha_inflate (src_ew_sys_err src / 3600) (src_dec src))\<^sup>2);
          decl_err = sqrt ((src_decl_fit_err src)\<^sup>2 + (src_ns_sys_err src / 3600)\<^sup>2);
          uncertainty_ew = sqrt ((src_ew_sys_err src)\<^sup>2 + r14\<^sup>2) / 3600;
          uncertainty_ns = sqrt ((src_ns_sys_err src)\<^sup>2 + r14\<^sup>2) / 3600;
          zone = \<lfloor>src_dec src\<rfloor>;
          (x, y, z) = eq_to_cart (src_ra src) (src_dec src);
          racosdecl = src_ra src * cos (radians (src_dec src))
      in case extract_code extract of
           Inl e \<Rightarrow> Inl e
         | Inr code \<Rightarrow> Inr
             \<lparr>ex_id = new_id, ex_ra = src_ra src, ex_decl = src_dec src,
              ex_ra_fit_err = src_ra_fit_err src, ex_decl_fit_err = src_decl_fit_err src,
              ex_f_peak = src_peak_flux src, ex_f_peak_err = src_peak_flux_err src,
              ex_f_int = src_int_flux src, ex_f_int_err = src_int_flux_err src,
              ex_det_sigma = src_significance src,
              ex_semimajor = src_beam_maj src, ex_semiminor = src_beam_min src,
              ex_pa = src_beam_pa src,
              ex_ew_sys_err = src_ew_sys_err src, ex_ns_sys_err = src_ns_sys_err src,
              ex_error_radius = r14, ex_ra_err = ra_err, ex_decl_err = decl_err,
              ex_uncertainty_ew = uncertainty_ew, ex_uncertainty_ns = uncertainty_ns,
              ex_image = image_id, ex_zone = zone, ex_x = x, ex_y = y, ex_z = z,
              ex_racosdecl = racosdecl, ex_extract_type = code\<rparr>)"

text \<open>
  The loop over \<open>results\<close>: it stops at the first detection whose row raises. The rows
  get consecutive identifiers from \<open>new_id\<close> on, as the sequence of the table hands
  them out.
\<close>

fun make_rows :: "inflation \<Rightarrow> int \<Rightarrow> string \<Rightarrow> int \<Rightarrow> detection list \<Rightarrow> error + ex_row list" where
  "make_rows alpha_inflate image_id extract new_id [] = Inr []"
| "make_rows alpha_inflate image_id extract new_id (src # results) =
     (case make_row alpha_inflate image_id extract new_id src of
        Inl e \<Rightarrow> Inl e
      | Inr r \<Rightarrow>
          (case make_rows alpha_inflate image_id extract (new_id + 1) results of
             Inl e \<Rightarrow> Inl e
           | Inr rs \<Rightarrow> Inr (r # rs)))"

text \<open>The message logged after the INSERT, chosen by the row count and \<open>extract\<close>.\<close>

definition insert_log :: "nat \<Rightarrow> string \<Rightarrow> int \<Rightarrow> log_record list" where
  "insert_log insert_num extract image_id =
     (if insert_num = 0 then [NoForcedFitAdded image_id]
      else if extract = ''blind'' then [InsertedSources insert_num image_id]
      else if extract = ''ff_nd'' then [InsertedNullDetections insert_num image_id]
      else if extract = ''ff_ms'' then [InsertedMonitoring insert_num image_id]
      else [])"

definition insert_extracted_sources ::
    "inflation \<Rightarrow> int \<Rightarrow> detection list \<Rightarrow> string \<Rightarrow> store \<Rightarrow> log_record list outcome" where
  "insert_extracted_sources alpha_inflate image_id results extract st =
     (if length results = 0 then (Inr [NoSourcesAdded extract image_id], st)
      else case make_rows alpha_inflate image_id extract (next_xtrsrc_id st) results of
             Inl e \<Rightarrow> (Inl e, st)
           | Inr xtrsrc \<Rightarrow>
               (Inr (insert_log (length xtrsrc) extract image_id),
                st\<lparr>extractedsource := extractedsource st @ xtrsrc,
                   next_xtrsrc_id := next_xtrsrc_id st + int (length xtrsrc)\<rparr>))"

section \<open>Evaluating the queries\<close>

text \<open>
  The arithmetic of the database raises where HOL would return a default: division by
  zero, the square root of a negative number, the arcsine outside \<open>[-1, 1]\<close>.
\<close>

definition sql_sqrt :: "real \<Rightarrow> error + real" where
  "sql_sqrt v = (if v < 0 then Inl DomainError else Inr (sqrt v))"

definition sql_asin :: "real \<Rightarrow> error + real" where
  "sql_asin v = (if v < -1 \<or> 1 < v then Inl DomainError else Inr (arcsin v))"

text \<open>
  The De Ruiter radius as the three queries write it:
  \<open>SQRT(dra * COS(RADIANS(d)) * dra * COS(RADIANS(d)) / (ew1*ew1 + ew2*ew2)
       + ddec * ddec / (ns1*ns1 + ns2*ns2))\<close>.
  The declination \<open>d\<close> of the cosine is the midpoint of the two declinations in the
  WHERE clauses and \<open>r.wm_decl\<close> in the \<open>assoc_r\<close> column.
\<close>

definition de_ruiter ::
    "real \<Rightarrow> real \<Rightarrow> real \<Rightarrow> real \<Rightarrow> real \<Rightarrow> real \<Rightarrow> real \<Rightarrow> real \<Rightarrow> real \<Rightarrow> error + real" where
  "de_ruiter d ra1 decl1 ew1 ns1 ra2 decl2 ew2 ns2 =
     (if ew1 * ew1 + ew2 * ew2 = 0 \<or> ns1 * ns1 + ns2 * ns2 = 0 then Inl DivisionByZero
      else sql_sqrt ((ra1 - ra2) * cos (radians d) * (ra1 - ra2) * cos (radians d)
                       / (ew1 * ew1 + ew2 * ew2)
                     + (decl1 - decl2) * (decl1 - decl2) / (ns1 * ns1 + ns2 * ns2)))"

text \<open>
  A WHERE clause over the rows of a join, in storage order: the rows it accepts, or the
  first error an evaluation raises. The conjuncts of a clause are evaluated in the order
  written, and the ones after a false conjunct are not evaluated.
\<close>

fun select_where :: "('a \<Rightarrow> error + bool) \<Rightarrow> 'a list \<Rightarrow> error + 'a list" where
  "select_where p [] = Inr []"
| "select_where p (a # as) =
     (case p a of
        Inl e \<Rightarrow> Inl e
      | Inr b \<Rightarrow>
          (case select_where p as of
             Inl e \<Rightarrow> Inl e
           | Inr rs \<Rightarrow> Inr (if b then a # rs else rs)))"

text \<open>The select list over the accepted rows.\<close>

fun select_list :: "('a \<Rightarrow> error + 'b) \<Rightarrow> 'a list \<Rightarrow> error + 'b list" where
  "select_list f [] = Inr []"
| "select_list f (a # as) =
     (case f a of
        Inl e \<Rightarrow> Inl e
      | Inr b \<Rightarrow>
          (case select_list f as of
             Inl e \<Rightarrow> Inl e
           | Inr bs \<Rightarrow> Inr (b # bs)))"

section \<open>filter_userdetections_extracted_sources\<close>

text \<open>
  The three BETWEEN conjuncts of the subquery: the zone band, the declination band and
  the RA band around \<open>x0\<close>, tested on \<open>x1\<close>.
\<close>

definition filter_ud_bands :: "inflation \<Rightarrow> real \<Rightarrow> ex_row \<Rightarrow> ex_row \<Rightarrow> bool" where
  "filter_ud_bands alpha assoc_theta x0 x1 \<longleftrightarrow>
     between (ex_zone x1) \<lfloor>ex_decl x0 - assoc_theta\<rfloor> \<lfloor>ex_decl x0 + assoc_theta\<rfloor>
     \<and> between (ex_decl x1) (ex_decl x0 - assoc_theta) (ex_decl x0 + assoc_theta)
     \<and> between (ex_ra x1) (ex_ra x0 - alpha assoc_theta (ex_decl x0))
                           (ex_ra x0 + alpha assoc_theta (ex_decl x0))"

text \<open>The De Ruiter radius of the subquery, with the cosine at the midpoint declination.\<close>

definition filter_ud_de_ruiter :: "ex_row \<Rightarrow> ex_row \<Rightarrow> error + real" where
  "filter_ud_de_ruiter x0 x1 =
     de_ruiter ((ex_decl x0 + ex_decl x1) / 2)
       (ex_ra x0) (ex_decl x0) (ex_uncertainty_ew x0) (ex_uncertainty_ns x0)
       (ex_ra x1) (ex_decl x1) (ex_uncertainty_ew x1) (ex_uncertainty_ns x1)"

text \<open>The WHERE clause of the subquery, on a pair \<open>(x0, x1)\<close> of \<open>extractedsource\<close>.\<close>

definition filter_ud_where ::
    "inflation \<Rightarrow> int \<Rightarrow> real \<Rightarrow> real \<Rightarrow> ex_row \<times> ex_row \<Rightarrow> error + bool" where
  "filter_ud_where alpha image_id deRuiter_r assoc_theta = (\<lambda>(x0, x1).
     if ex_image x0 = image_id
        \<and> ex_extract_type x0 = 3
        \<and> ex_image x1 = image_id
        \<and> ex_extract_type x1 \<in> {0, 1, 2}
        \<and> filter_ud_bands alpha assoc_theta x0 x1
     then (case filter_ud_de_ruiter x0 x1 of
             Inl e \<Rightarrow> Inl e
           | Inr v \<Rightarrow> Inr (v < deRuiter_r))
     else Inr False)"

text \<open>
  The DELETE statement: the identifiers the subquery selects, the rows left, and the
  row count that picks the log message. A statement that raises changes nothing.
\<close>

definition filter_userdetections_extracted_sources ::
    "inflation \<Rightarrow> int \<Rightarrow> real \<Rightarrow> real \<Rightarrow> store \<Rightarrow> log_record list outcome" where
  "filter_userdetections_extracted_sources alpha image_id deRuiter_r assoc_theta st =
     (case select_where (filter_ud_where alpha image_id deRuiter_r assoc_theta)
             (List.product (extractedsource st) (extractedsource st)) of
        Inl e \<Rightarrow> (Inl e, st)
      | Inr pairs \<Rightarrow>
          (let ids = map (\<lambda>(x0, x1). ex_id x0) pairs;
               kept = filter (\<lambda>row. ex_id row \<notin> set ids) (extractedsource st);
               rowcount = length (extractedsource st) - length kept
           in (Inr (if rowcount = 0 then [NoUserEntryRemoved image_id]
                    else [RemovedSources rowcount image_id]),
               st\<lparr>extractedsource := kept\<rparr>)))"

text \<open>The default of the keyword argument \<open>assoc_theta\<close>.\<close>

definition default_assoc_theta :: real where
  "default_assoc_theta = 0.03"

text \<open>
  The primary key of \<open>extractedsource\<close>: identifiers are unique, and below the next
  value of the sequence.
\<close>

definition store_ok :: "store \<Rightarrow> bool" where
  "store_ok st \<longleftrightarrow>
     distinct (map ex_id (extractedsource st))
     \<and> (\<forall>row \<in> set (extractedsource st). ex_id row < next_xtrsrc_id st)"

section \<open>lightcurve\<close>

text \<open>
  \<open>lightcurve_query\<close>: the join of \<open>extractedsource\<close>, \<open>assocxtrsource\<close>, \<open>image\<close> and
  \<open>frequencyband\<close>, its eight columns, ordered by \<open>im.taustart_ts\<close>. Rows with equal
  keys keep the order of the join.
\<close>

type_synonym lightcurve_row = "int \<times> real \<times> real \<times> real \<times> int \<times> int \<times> int \<times> real"

definition lightcurve_query :: "store \<Rightarrow> int \<Rightarrow> lightcurve_row list" where
  "lightcurve_query st xtrsrc =
     sort_key fst
       [(im_taustart_ts im, im_tau_time im, ex_f_int ex, ex_f_int_err ex, ex_id ex,
         im_band im, im_stokes im, bd_freq_central bd).
          ex \<leftarrow> extractedsource st, ax \<leftarrow> assocxtrsource st,
          im \<leftarrow> image_tbl st, bd \<leftarrow> frequencyband st,
          ax_runcat ax \<in> set [ax_runcat a. a \<leftarrow> assocxtrsource st, ax_xtrsrc a = xtrsrc]
          \<and> ax_xtrsrc ax = ex_id ex
          \<and> ex_image ex = im_id im
          \<and> bd_id bd = im_band im]"

definition lightcurve :: "int \<Rightarrow> store \<Rightarrow> lightcurve_row list outcome" where
  "lightcurve xtrsrcid st = (Inr (lightcurve_query st xtrsrcid), st)"

section \<open>match_nearests_in_catalogs\<close>

text \<open>A returned dictionary: the ten keys of \<open>descriptions\<close>.\<close>

record match =
  res_catsrcid :: int
  res_catsrcname :: string
  res_catid :: int
  res_catname :: string
  res_ra :: real
  res_decl :: real
  res_uncertainty_ew :: real
  res_uncertainty_ns :: real
  res_dist_arcsec :: real
  res_assoc_r :: real

text \<open>
  The three BETWEEN conjuncts of the WHERE clause: the zone band, the declination band
  and the RA band around the running source \<open>r\<close>, tested on the catalog source \<open>c\<close>.
\<close>

definition match_bands :: "inflation \<Rightarrow> real \<Rightarrow> r_row \<Rightarrow> c_row \<Rightarrow> bool" where
  "match_bands alpha radius r c \<longleftrightarrow>
     between (c_zone c) \<lfloor>r_wm_decl r - radius\<rfloor> \<lfloor>r_wm_decl r + radius\<rfloor>
     \<and> between (c_decl c) (r_wm_decl r - radius) (r_wm_decl r + radius)
     \<and> between (c_ra c) (r_wm_ra r - alpha radius (r_wm_decl r))
                         (r_wm_ra r + alpha radius (r_wm_decl r))"

text \<open>The conjunct on the Cartesian coordinates: the cone of the search radius.\<close>

definition match_cone :: "real \<Rightarrow> r_row \<Rightarrow> c_row \<Rightarrow> bool" where
  "match_cone radius r c \<longleftrightarrow>
     c_x c * r_x r + c_y c * r_y r + c_z c * r_z r > cos (radians radius)"

text \<open>The De Ruiter radius of the WHERE clause, with the cosine at the midpoint declination.\<close>

definition match_de_ruiter :: "r_row \<Rightarrow> c_row \<Rightarrow> error + real" where
  "match_de_ruiter r c =
     de_ruiter ((r_wm_decl r + c_decl c) / 2)
       (r_wm_ra r) (r_wm_decl r) (r_wm_uncertainty_ew r) (r_wm_uncertainty_ns r)
       (c_ra c) (c_decl c) (c_uncertainty_ew c) (c_uncertainty_ns c)"

text \<open>The column \<open>assoc_r\<close> of the select list, with the cosine at \<open>r.wm_decl\<close>.\<close>

definition assoc_r :: "r_row \<Rightarrow> c_row \<Rightarrow> error + real" where
  "assoc_r r c =
     de_ruiter (r_wm_decl r)
       (r_wm_ra r) (r_wm_decl r) (r_wm_uncertainty_ew r) (r_wm_uncertainty_ns r)
       (c_ra c) (c_decl c) (c_uncertainty_ew c) (c_uncertainty_ns c)"

text \<open>The WHERE clause, on a row \<open>(r, c, k)\<close> of the join.\<close>

definition match_where ::
    "inflation \<Rightarrow> int \<Rightarrow> real \<Rightarrow> real \<Rightarrow> r_row \<times> c_row \<times> k_row \<Rightarrow> error + bool" where
  "match_where alpha runcatid radius deruiter = (\<lambda>(r, c, k).
     if r_id r = runcatid
        \<and> match_bands alpha radius r c
        \<and> match_cone radius r c
        \<and> c_catalog c = k_id k
     then (case match_de_ruiter r c of
             Inl e \<Rightarrow> Inl e
           | Inr v \<Rightarrow> Inr (v < deruiter))
     else Inr False)"

text \<open>The column \<open>distance_arcsec\<close>.\<close>

definition distance_arcsec :: "real \<times> real \<times> real \<Rightarrow> real \<times> real \<times> real \<Rightarrow> error + real" where
  "distance_arcsec = (\<lambda>(rx, ry, rz) (cx, cy, cz).
     case sql_sqrt ((rx - cx) * (rx - cx) + (ry - cy) * (ry - cy) + (rz - cz) * (rz - cz)) of
       Inl e \<Rightarrow> Inl e
     | Inr chord \<Rightarrow>
         (case sql_asin (chord / 2) of
            Inl e \<Rightarrow> Inl e
          | Inr a \<Rightarrow> Inr (3600 * degrees (2 * a))))"

text \<open>The select list, on an accepted row of the join.\<close>

definition match_select :: "r_row \<times> c_row \<times> k_row \<Rightarrow> error + match" where
  "match_select = (\<lambda>(r, c, k).
     case distance_arcsec (r_x r, r_y r, r_z r) (c_x c, c_y c, c_z c) of
       Inl e \<Rightarrow> Inl e
     | Inr arcsec \<Rightarrow>
         (case assoc_r r c of
            Inl e \<Rightarrow> Inl e
          | Inr assoc \<Rightarrow> Inr
              \<lparr>res_catsrcid = c_id c, res_catsrcname = c_catsrcname c,
               res_catid = c_catalog c, res_catname = k_name k,
               res_ra = c_ra c, res_decl = c_decl c,
               res_uncertainty_ew = c_uncertainty_ew c,
               res_uncertainty_ns = c_uncertainty_ns c,
               res_dist_arcsec = arcsec, res_assoc_r = assoc\<rparr>))"

text \<open>
  The query and the list of dictionaries built from its rows:
  \<open>ORDER BY c.catalog, assoc_r\<close> is the lexicographic order on the pair.
\<close>

definition match_nearests_in_catalogs ::
    "inflation \<Rightarrow> int \<Rightarrow> real \<Rightarrow> real \<Rightarrow> store \<Rightarrow> match list outcome" where
  "match_nearests_in_catalogs alpha runcatid radius deRuiter_r st =
     (case select_where (match_where alpha runcatid radius deRuiter_r)
             (List.product (runningcatalog st)
                (List.product (catalogedsource st) (catalog st))) of
        Inl e \<Rightarrow> (Inl e, st)
      | Inr joined \<Rightarrow>
          (case select_list match_select joined of
             Inl e \<Rightarrow> (Inl e, st)
           | Inr results \<Rightarrow>
               (Inr (sort_key (\<lambda>res. (res_catid res, res_assoc_r res)) results), st)))"

section \<open>Angular separation\<close>

text \<open>
  The true angular separation of two positions, in degrees: the angle between their
  directions on the unit sphere. The sources do not compute it; the cone conjunct of the
  cross-match compares its cosine with the cosine of the search radius.
\<close>

definition angular_separation :: "real \<Rightarrow> real \<Rightarrow> real \<Rightarrow> real \<Rightarrow> real" where
  "angular_separation ra1 decl1 ra2 decl2 =
     (case eq_to_cart ra1 decl1 of (x1, y1, z1) \<Rightarrow>
        case eq_to_cart ra2 decl2 of (x2, y2, z2) \<Rightarrow>
          degrees (arccos (x1 * x2 + y1 * y2 + z1 * z2)))"

section \<open>Sample data\<close>

definition empty_store :: store where
  "empty_store = \<lparr>extractedsource = [], assocxtrsource = [], image_tbl = [], frequencyband = [],
     runningcatalog = [], catalogedsource = [], catalog = [], next_xtrsrc_id = 1\<rparr>"

text \<open>A detection at the origin of the sky with an error radius of one arcsecond.\<close>

definition det_origin :: detection where
  "det_origin = \<lparr>src_ra = 0, src_dec = 0, src_ra_fit_err = 0, src_decl_fit_err = 0,
     src_peak_flux = 1, src_peak_flux_err = 0, src_int_flux = 1, src_int_flux_err = 0,
     src_significance = 10, src_beam_maj = 1, src_beam_min = 1, src_beam_pa = 0,
     src_ew_sys_err = 0, src_ns_sys_err = 0, src_error_radius = Finite 1\<rparr>"

text \<open>The row a blind insert into image 1 stores for \<open>det_origin\<close>.\<close>

definition row_origin :: ex_row where
  "row_origin = \<lparr>ex_id = 1, ex_ra = 0, ex_decl = 0, ex_ra_fit_err = 0, ex_decl_fit_err = 0,
     ex_f_peak = 1, ex_f_peak_err = 0, ex_f_int = 1, ex_f_int_err = 0, ex_det_sigma = 10,
     ex_semimajor = 1, ex_semiminor = 1, ex_pa = 0, ex_ew_sys_err = 0, ex_ns_sys_err = 0,
     ex_error_radius = 1, ex_ra_err = 0, ex_decl_err = 0,
     ex_uncertainty_ew = 1 / 3600, ex_uncertainty_ns = 1 / 3600,
     ex_image = 1, ex_zone = 0, ex_x = 1, ex_y = 0, ex_z = 0, ex_racosdecl = 0,
     ex_extract_type = 0\<rparr>"

text \<open>
  Three detections of running source 1, in images that start at 300, 100 and 200.
\<close>

definition lc_store :: store where
  "lc_store = empty_store
     \<lparr>extractedsource :=
        [row_origin,
         row_origin\<lparr>ex_id := 2, ex_image := 2, ex_f_int := 2\<rparr>,
         row_origin\<lparr>ex_id := 3, ex_image := 3, ex_f_int := 3\<rparr>],
      assocxtrsource :=
        [\<lparr>ax_runcat = 1, ax_xtrsrc = 1\<rparr>, \<lparr>ax_runcat = 1, ax_xtrsrc = 2\<rparr>,
         \<lparr>ax_runcat = 1, ax_xtrsrc = 3\<rparr>],
      image_tbl :=
        [\<lparr>im_id = 1, im_taustart_ts = 300, im_tau_time = 10, im_band = 1, im_stokes = 1\<rparr>,
         \<lparr>im_id = 2, im_taustart_ts = 100, im_tau_time = 10, im_band = 1, im_stokes = 1\<rparr>,
         \<lparr>im_id = 3, im_taustart_ts = 200, im_tau_time = 10, im_band = 1, im_stokes = 1\<rparr>],
      frequencyband := [\<lparr>bd_id = 1, bd_freq_central = 150\<rparr>],
      next_xtrsrc_id := 4\<rparr>"

text \<open>
  Image 1 after a blind insert and a forced-null insert of the same detection.
\<close>

definition two_fits_store :: store where
  "two_fits_store =
     snd (insert_extracted_sources (\<lambda>theta decl. theta) 1 [det_origin] ''ff_nd''
       (snd (insert_extracted_sources (\<lambda>theta decl. theta) 1 [det_origin] ''blind''
          empty_store)))"

text \<open>
  Image 1 with a blind row, a forced-null row and a row of type 3 at the origin, and a
  second row of type 3 ten degrees to the north.
\<close>

definition user_entry_store :: store where
  "user_entry_store = empty_store
     \<lparr>extractedsource :=
        [row_origin,
         row_origin\<lparr>ex_id := 2, ex_extract_type := 1\<rparr>,
         row_origin\<lparr>ex_id := 3, ex_extract_type := 3\<rparr>,
         row_origin\<lparr>ex_id := 4, ex_decl := 10, ex_zone := 10, ex_x := cos (radians 10),
           ex_z := sin (radians 10), ex_extract_type := 3\<rparr>],
      next_xtrsrc_id := 5\<rparr>"

text \<open>
  A running source and a catalog source at a position given in degrees, with the zone
  and the Cartesian coordinates that belong to the position.
\<close>

definition running_source :: "int \<Rightarrow> real \<Rightarrow> real \<Rightarrow> real \<Rightarrow> real \<Rightarrow> r_row" where
  "running_source i ra decl ew ns = (case eq_to_cart ra decl of (x, y, z) \<Rightarrow>
     \<lparr>r_id = i, r_wm_ra = ra, r_wm_decl = decl, r_wm_uncertainty_ew = ew,
      r_wm_uncertainty_ns = ns, r_x = x, r_y = y, r_z = z\<rparr>)"

definition catalog_source :: "int \<Rightarrow> int \<Rightarrow> real \<Rightarrow> real \<Rightarrow> real \<Rightarrow> real \<Rightarrow> c_row" where
  "catalog_source i cat ra decl ew ns = (case eq_to_cart ra decl of (x, y, z) \<Rightarrow>
     \<lparr>c_id = i, c_catsrcname = ''J'', c_catalog = cat, c_ra = ra, c_decl = decl,
      c_uncertainty_ew = ew, c_uncertainty_ns = ns, c_zone = \<lfloor>decl\<rfloor>,
      c_x = x, c_y = y, c_z = z\<rparr>)"

text \<open>
  A running source at the origin of the sky and six catalog sources on its meridian, in
  two catalogs: the uncertainties make the De Ruiter radius 200 times the offset in
  declination.
\<close>

definition xm_running :: r_row where
  "xm_running = running_source 1 0 0 0.003 0.003"

definition xm_candidate :: "int \<Rightarrow> int \<Rightarrow> real \<Rightarrow> c_row" where
  "xm_candidate i cat decl = catalog_source i cat 0 decl 0.004 0.004"

definition xm_store :: store where
  "xm_store = empty_store
     \<lparr>runningcatalog := [xm_running],
      catalogedsource :=
        [xm_candidate 1 1 0.005, xm_candidate 2 1 0, xm_candidate 3 2 0.01,
         xm_candidate 4 1 0.02, xm_candidate 5 2 0.05, xm_candidate 6 2 0],
      catalog := [\<lparr>k_id = 1, k_name = ''NVSS''\<rparr>, \<lparr>k_id = 2, k_name = ''WENSS''\<rparr>]\<rparr>"




text \<open>
  A running source at the north pole and two sources of one catalog next to it: \<open>pole_a\<close>
  0.02 degrees from the pole at right ascension 100, \<open>pole_b\<close> 0.0225 degrees from the pole
  at right ascension 0, stored first.
\<close>

definition pole_running :: r_row where
  "pole_running = running_source 1 0 90 0.006 0.006"

definition pole_a :: c_row where
  "pole_a = catalog_source 1 1 100 89.98 0.008 0.008"

definition pole_b :: c_row where
  "pole_b = catalog_source 2 1 0 89.9775 0.008 0.008"

definition pole_store :: store where
  "pole_store = empty_store
     \<lparr>runningcatalog := [pole_running],
      catalogedsource := [pole_b, pole_a],
      catalog := [\<lparr>k_id = 1, k_name = ''NVSS''\<rparr>]\<rparr>"



section \<open>Properties of the bulk insert\<close>

lemma extract_code_cases:
  "extract_code extract = Inr c \<longleftrightarrow>
     (extract = ''blind'' \<and> c = 0) \<or> (extract = ''ff_nd'' \<and> c = 1) \<or> (extract = ''ff_ms'' \<and> c = 2)"
  by (auto simp: extract_code_def)

lemma make_row_Inr:
  assumes "make_row a i e n src = Inr row"
  shows "extract_code e = Inr (ex_extract_type row)"
    and "ex_image row = i" and "ex_id row = n"
    and "ex_error_radius row = substitute_inf (src_error_radius src) 360"
    and "ex_ew_sys_err row = src_ew_sys_err src"
    and "ex_ns_sys_err row = src_ns_sys_err src"
    and "ex_uncertainty_ew row = sqrt ((ex_ew_sys_err row)\<^sup>2 + (ex_error_radius row)\<^sup>2) / 3600"
    and "ex_uncertainty_ns row = sqrt ((ex_ns_sys_err row)\<^sup>2 + (ex_error_radius row)\<^sup>2) / 3600"
    and "ex_zone row = \<lfloor>src_dec src\<rfloor>"
    and "ex_decl row = src_dec src"
  using assms
  by (auto simp: make_row_def Let_def split: sum.splits prod.splits)

lemma make_row_Inl:
  "extract_code e = Inl err \<Longrightarrow> make_row a i e n src = Inl err"
  by (simp add: make_row_def Let_def split: prod.splits)

lemma make_row_ok:
  "extract_code e = Inr c \<Longrightarrow> \<exists>row. make_row a i e n src = Inr row"
  by (simp add: make_row_def Let_def split: prod.splits)

lemma make_rows_Inl:
  "extract_code e = Inl err \<Longrightarrow> results \<noteq> [] \<Longrightarrow> make_rows a i e n results = Inl err"
  by (cases results) (simp_all add: make_row_Inl)

lemma make_rows_ok:
  "extract_code e = Inr c \<Longrightarrow> \<exists>rows. make_rows a i e n results = Inr rows"
proof (induction results arbitrary: n)
  case Nil
  then show ?case by simp
next
  case (Cons src results)
  from make_row_ok [OF Cons.prems] obtain row where "make_row a i e n src = Inr row" by blast
  moreover from Cons.IH [OF Cons.prems] obtain rows
    where "make_rows a i e (n + 1) results = Inr rows" by blast
  ultimately show ?case by simp
qed

lemma make_rows_Inr:
  "make_rows a i e n results = Inr rows \<Longrightarrow>
     length rows = length results \<and>
     (\<forall>k < length results. make_row a i e (n + int k) (results ! k) = Inr (rows ! k))"
proof (induction results arbitrary: n rows)
  case Nil
  then show ?case by simp
next
  case (Cons src results)
  from Cons.prems obtain r rs where r: "make_row a i e n src = Inr r"
    and rs: "make_rows a i e (n + 1) results = Inr rs" and rows: "rows = r # rs"
    by (auto split: sum.splits)
  from Cons.IH [OF rs] have len: "length rs = length results"
    and nth: "\<And>k. k < length results \<Longrightarrow> make_row a i e (n + 1 + int k) (results ! k) = Inr (rs ! k)"
    by auto
  show ?case
  proof (intro conjI allI impI)
    show "length rows = length (src # results)" using len rows by simp
  next
    fix k assume "k < length (src # results)"
    then show "make_row a i e (n + int k) ((src # results) ! k) = Inr (rows ! k)"
      using r rows nth by (cases k) (auto simp: add.assoc)
  qed
qed

lemma insert_rows:
  assumes "insert_extracted_sources a i results e st = (Inr lg, st')"
  shows "\<exists>rows. make_rows a i e (next_xtrsrc_id st) results = Inr rows \<and>
           extractedsource st' = extractedsource st @ rows \<and>
           next_xtrsrc_id st' = next_xtrsrc_id st + int (length rows)"
  using assms
  by (cases results) (auto simp: insert_extracted_sources_def split: sum.splits)

lemma make_rows_member:
  assumes "make_rows a i e n results = Inr rows" and "row \<in> set rows"
  shows "\<exists>k < length results. make_row a i e (n + int k) (results ! k) = Inr row"
proof -
  from assms(2) obtain k where k: "k < length rows" "rows ! k = row"
    by (auto simp: in_set_conv_nth)
  with make_rows_Inr [OF assms(1)] show ?thesis by auto
qed

text \<open>
  Claim C9. A bulk insert of zero detections returns without an exception, leaves the
  store as it was, and the only report is the log message that no sources were added.
\<close>

theorem insert_empty_is_noop:
  "insert_extracted_sources alpha_inflate image_id [] extract st =
     (Inr [NoSourcesAdded extract image_id], st)"
  by (simp add: insert_extracted_sources_def)

text \<open>
  Claim C6. A non-empty bulk insert with an \<open>extract\<close> other than \<open>blind\<close>, \<open>ff_nd\<close>,
  \<open>ff_ms\<close> raises ValueError and leaves the store as it was; with one of the three it
  appends one row per detection, each with the tag 0, 1 or 2 of its \<open>extract\<close>.
\<close>

theorem insert_checks_extract:
  assumes "results \<noteq> []"
  shows "(extract \<notin> {''blind'', ''ff_nd'', ''ff_ms''} \<longrightarrow>
            insert_extracted_sources alpha_inflate image_id results extract st =
              (Inl (ValueError extract), st))
       \<and> (extract \<in> {''blind'', ''ff_nd'', ''ff_ms''} \<longrightarrow>
            (\<exists>rows. insert_extracted_sources alpha_inflate image_id results extract st =
                 (Inr (insert_log (length results) extract image_id),
                  st\<lparr>extractedsource := extractedsource st @ rows,
                     next_xtrsrc_id := next_xtrsrc_id st + int (length results)\<rparr>)
               \<and> length rows = length results
               \<and> (\<forall>row \<in> set rows. ex_extract_type row =
                     (if extract = ''blind'' then 0 else if extract = ''ff_nd'' then 1 else 2))))"
proof (intro conjI impI)
  assume "extract \<notin> {''blind'', ''ff_nd'', ''ff_ms''}"
  then have "extract_code extract = Inl (ValueError extract)"
    by (simp add: extract_code_def)
  from make_rows_Inl [OF this assms] show
    "insert_extracted_sources alpha_inflate image_id results extract st =
       (Inl (ValueError extract), st)"
    using assms by (simp add: insert_extracted_sources_def)
next
  let ?c = "if extract = ''blind'' then 0 else if extract = ''ff_nd'' then 1 else (2::int)"
  assume "extract \<in> {''blind'', ''ff_nd'', ''ff_ms''}"
  then have code: "extract_code extract = Inr ?c"
    by (auto simp: extract_code_def)
  from make_rows_ok [OF code] obtain rows
    where rows: "make_rows alpha_inflate image_id extract (next_xtrsrc_id st) results = Inr rows"
    by blast
  from make_rows_Inr [OF rows] have len: "length rows = length results" by simp
  have "ex_extract_type row = ?c" if "row \<in> set rows" for row
  proof -
    from make_rows_member [OF rows that] obtain k
      where "make_row alpha_inflate image_id extract (next_xtrsrc_id st + int k) (results ! k) = Inr row"
      by blast
    from make_row_Inr(1) [OF this] code show ?thesis by simp
  qed
  with rows len assms show "\<exists>rows. insert_extracted_sources alpha_inflate image_id results extract st =
                 (Inr (insert_log (length results) extract image_id),
                  st\<lparr>extractedsource := extractedsource st @ rows,
                     next_xtrsrc_id := next_xtrsrc_id st + int (length results)\<rparr>)
               \<and> length rows = length results
               \<and> (\<forall>row \<in> set rows. ex_extract_type row = ?c)"
    by (intro exI [of _ rows]) (simp add: insert_extracted_sources_def)
qed

theorem insert_checks_extract_witness:
  "[det_origin] \<noteq> []
   \<and> insert_extracted_sources (\<lambda>theta decl. theta) 7 [det_origin] ''user'' empty_store =
       (Inl (ValueError ''user''), empty_store)
   \<and> map ex_extract_type (extractedsource (snd
       (insert_extracted_sources (\<lambda>theta decl. theta) 7 [det_origin] ''ff_nd'' empty_store))) = [1]"
proof -
  have ne: "[det_origin] \<noteq> []" by simp
  show ?thesis
    using insert_checks_extract [OF ne, of "''user''" "\<lambda>theta decl. theta" 7 empty_store]
      insert_checks_extract [OF ne, of "''ff_nd''" "\<lambda>theta decl. theta" 7 empty_store]
    by (auto simp: empty_store_def length_Suc_conv)
qed

text \<open>
  Claim C5, as amended. Every row a bulk insert stores has
  \<open>uncertainty_ew = sqrt(ew_sys_err\<^sup>2 + error_radius\<^sup>2)/3600\<close> and the same for
  \<open>uncertainty_ns\<close>, and the squares of both are at least the square of
  \<open>error_radius/3600\<close>: the error radius in degrees, the unit of the uncertainties.
\<close>

theorem stored_uncertainty:
  assumes "insert_extracted_sources alpha_inflate image_id results extract st = (Inr lg, st')"
  shows "\<exists>rows. extractedsource st' = extractedsource st @ rows \<and> length rows = length results \<and>
           (\<forall>row \<in> set rows.
              ex_uncertainty_ew row = sqrt ((ex_ew_sys_err row)\<^sup>2 + (ex_error_radius row)\<^sup>2) / 3600 \<and>
              ex_uncertainty_ns row = sqrt ((ex_ns_sys_err row)\<^sup>2 + (ex_error_radius row)\<^sup>2) / 3600 \<and>
              (ex_error_radius row / 3600)\<^sup>2 \<le> (ex_uncertainty_ew row)\<^sup>2 \<and>
              (ex_error_radius row / 3600)\<^sup>2 \<le> (ex_uncertainty_ns row)\<^sup>2)"
proof -
  from insert_rows [OF assms] obtain rows
    where rows: "make_rows alpha_inflate image_id extract (next_xtrsrc_id st) results = Inr rows"
      and ext: "extractedsource st' = extractedsource st @ rows"
    by blast
  have bound: "(r / 3600)\<^sup>2 \<le> (sqrt (s\<^sup>2 + r\<^sup>2) / 3600)\<^sup>2" for r s :: real
    by (simp add: power_divide divide_right_mono)
  have "ex_uncertainty_ew row = sqrt ((ex_ew_sys_err row)\<^sup>2 + (ex_error_radius row)\<^sup>2) / 3600 \<and>
        ex_uncertainty_ns row = sqrt ((ex_ns_sys_err row)\<^sup>2 + (ex_error_radius row)\<^sup>2) / 3600 \<and>
        (ex_error_radius row / 3600)\<^sup>2 \<le> (ex_uncertainty_ew row)\<^sup>2 \<and>
        (ex_error_radius row / 3600)\<^sup>2 \<le> (ex_uncertainty_ns row)\<^sup>2"
    if "row \<in> set rows" for row
  proof -
    from make_rows_member [OF rows that] obtain k
      where mk: "make_row alpha_inflate image_id extract (next_xtrsrc_id st + int k) (results ! k) = Inr row"
      by blast
    note ew = make_row_Inr(7) [OF mk] and ns = make_row_Inr(8) [OF mk]
    show ?thesis
      unfolding ew ns using bound by simp
  qed
  with ext make_rows_Inr [OF rows] show ?thesis by blast
qed

theorem stored_uncertainty_witness:
  "map (\<lambda>row. (ex_error_radius row, ex_uncertainty_ew row, ex_uncertainty_ns row))
     (extractedsource (snd (insert_extracted_sources (\<lambda>theta decl. theta) 7 [det_origin] ''blind''
        empty_store))) = [(1, 1 / 3600, 1 / 3600)]
   \<and> ((1::real) / 3600)\<^sup>2 \<le> (1 / 3600)\<^sup>2"
  using stored_uncertainty [of "\<lambda>theta decl. theta" 7 "[det_origin]" "''blind''" empty_store
      "[InsertedSources 1 7]"
      "snd (insert_extracted_sources (\<lambda>theta decl. theta) 7 [det_origin] ''blind'' empty_store)"]
  by (simp add: insert_extracted_sources_def make_row_def extract_code_def empty_store_def
      det_origin_def substitute_inf_def eq_to_cart_def radians_def insert_log_def)

text \<open>
  Claim C5 as stated compares degrees with arcseconds: for a detection with no systematic
  error and an error radius of one arcsecond, the stored uncertainties are 1/3600 and
  their squares are below the square of the stored error radius.
\<close>

theorem stored_uncertainty_counterexample:
  "map (\<lambda>row. (ex_error_radius row)\<^sup>2 \<le> (ex_uncertainty_ew row)\<^sup>2
             \<and> (ex_error_radius row)\<^sup>2 \<le> (ex_uncertainty_ns row)\<^sup>2)
     (extractedsource (snd (insert_extracted_sources (\<lambda>theta decl. theta) 7 [det_origin] ''blind''
        empty_store))) = [False]"
  by (simp add: insert_extracted_sources_def make_row_def extract_code_def empty_store_def
      det_origin_def substitute_inf_def eq_to_cart_def radians_def power_divide)

section \<open>Properties of the light curve\<close>

lemma concat_map_Nil: "(\<And>a. a \<in> set xs \<Longrightarrow> f a = []) \<Longrightarrow> concat (map f xs) = []"
  by (induction xs) auto

lemma concat_map_const_Nil: "concat (map (\<lambda>a. []) xs) = []"
  by (induction xs) auto

text \<open>
  Claim C10. For an identifier that no row of \<open>assocxtrsource\<close> has as its \<open>xtrsrc\<close>, the
  light-curve query returns the empty list without an exception and leaves the store as
  it was.
\<close>

theorem lightcurve_no_associations:
  assumes "\<forall>ax \<in> set (assocxtrsource st). ax_xtrsrc ax \<noteq> xtrsrcid"
  shows "lightcurve xtrsrcid st = (Inr [], st)"
proof -
  have sub: "[ax_runcat a. a \<leftarrow> assocxtrsource st, ax_xtrsrc a = xtrsrcid] = []"
    using assms by (intro concat_map_Nil) simp
  show ?thesis
    unfolding lightcurve_def lightcurve_query_def sub by (simp add: concat_map_const_Nil)
qed

theorem lightcurve_no_associations_witness:
  "map ax_xtrsrc (assocxtrsource lc_store) = [1, 2, 3]
   \<and> lightcurve 99 lc_store = (Inr [], lc_store)"
proof -
  have ids: "map ax_xtrsrc (assocxtrsource lc_store) = [1, 2, 3]"
    by (simp add: lc_store_def)
  have h: "\<forall>ax \<in> set (assocxtrsource lc_store). ax_xtrsrc ax \<noteq> 99"
    by (simp add: lc_store_def)
  from ids lightcurve_no_associations [OF h] show ?thesis by simp
qed

text \<open>
  Claim C4. The query selects eight columns, \<open>bd.freq_central\<close> after the seven of the
  docstring: on the sample store each returned tuple has eight components. The rows
  come back ordered by start time, 100, 200, 300, whatever the insertion order.
\<close>

theorem lightcurve_eight_columns:
  "lightcurve 1 lc_store =
     (Inr [(100, 10, 2, 0, 2, 1, 1, 150), (200, 10, 3, 0, 3, 1, 1, 150),
           (300, 10, 1, 0, 1, 1, 1, 150)], lc_store)"
  by (simp add: lightcurve_def lightcurve_query_def lc_store_def empty_store_def row_origin_def)

lemma lightcurve_sorted:
  "sorted (map fst (lightcurve_query st xtrsrcid))"
  by (simp add: lightcurve_query_def)

section \<open>Properties of the deduplication pass\<close>

lemma select_where_Inr:
  "select_where p xs = Inr rs \<Longrightarrow> rs = filter (\<lambda>a. p a = Inr True) xs"
  by (induction xs arbitrary: rs) (auto split: sum.splits if_splits)


lemma select_where_ok:
  "(\<And>a. a \<in> set xs \<Longrightarrow> \<exists>b. p a = Inr b) \<Longrightarrow>
     select_where p xs = Inr (filter (\<lambda>a. p a = Inr True) xs)"
proof (induction xs)
  case Nil
  then show ?case by simp
next
  case (Cons a xs)
  from Cons.prems [of a] obtain b where b: "p a = Inr b" by auto
  from Cons.IH Cons.prems have "select_where p xs = Inr (filter (\<lambda>a. p a = Inr True) xs)"
    by simp
  with b show ?case by simp
qed

lemma filter_ud_where_True:
  "filter_ud_where alpha image_id deRuiter_r assoc_theta (x0, x1) = Inr True \<longleftrightarrow>
     ex_image x0 = image_id \<and> ex_extract_type x0 = 3 \<and> ex_image x1 = image_id
     \<and> ex_extract_type x1 \<in> {0, 1, 2} \<and> filter_ud_bands alpha assoc_theta x0 x1
     \<and> (\<exists>v. filter_ud_de_ruiter x0 x1 = Inr v \<and> v < deRuiter_r)"
  by (auto simp: filter_ud_where_def split: sum.splits)

text \<open>The identifiers the subquery of a successful DELETE selects.\<close>

lemma filter_ud_Inr:
  assumes "filter_userdetections_extracted_sources alpha image_id deRuiter_r assoc_theta st
             = (Inr lg, st')"
  shows "extractedsource st' =
           filter (\<lambda>row. ex_id row \<notin> ex_id ` {x0 \<in> set (extractedsource st).
                     \<exists>x1 \<in> set (extractedsource st).
                       filter_ud_where alpha image_id deRuiter_r assoc_theta (x0, x1) = Inr True})
             (extractedsource st)"
proof -
  let ?p = "filter_ud_where alpha image_id deRuiter_r assoc_theta"
  let ?xs = "List.product (extractedsource st) (extractedsource st)"
  from assms obtain pairs where sel: "select_where ?p ?xs = Inr pairs"
    and st': "extractedsource st' = filter (\<lambda>row. ex_id row \<notin> set (map (\<lambda>(x0, x1). ex_id x0) pairs))
                 (extractedsource st)"
    by (auto simp: filter_userdetections_extracted_sources_def Let_def split: sum.splits)
  have "set (map (\<lambda>(x0, x1). ex_id x0) pairs) =
          ex_id ` {x0 \<in> set (extractedsource st).
                     \<exists>x1 \<in> set (extractedsource st). ?p (x0, x1) = Inr True}"
    unfolding select_where_Inr [OF sel] by force
  with st' show ?thesis by simp
qed

lemma filter_ud_Inl:
  "filter_userdetections_extracted_sources alpha image_id deRuiter_r assoc_theta st = (Inl e, st')
     \<Longrightarrow> st' = st"
  by (auto simp: filter_userdetections_extracted_sources_def Let_def split: sum.splits)

lemma filter_ud_removed:
  assumes pk: "distinct (map ex_id (extractedsource st))"
    and run: "filter_userdetections_extracted_sources alpha image_id deRuiter_r assoc_theta st
             = (Inr lg, st')"
    and row: "row \<in> set (extractedsource st)"
  shows "row \<notin> set (extractedsource st') \<longleftrightarrow>
           (\<exists>x1 \<in> set (extractedsource st).
              filter_ud_where alpha image_id deRuiter_r assoc_theta (row, x1) = Inr True)"
proof -
  let ?hit = "\<lambda>x0. \<exists>x1 \<in> set (extractedsource st).
                filter_ud_where alpha image_id deRuiter_r assoc_theta (x0, x1) = Inr True"
  have inj: "x0 = row" if "x0 \<in> set (extractedsource st)" "ex_id x0 = ex_id row" for x0
    using pk row that by (meson distinct_map inj_onD)
  have "ex_id row \<in> ex_id ` {x0 \<in> set (extractedsource st). ?hit x0} \<longleftrightarrow> ?hit row"
  proof
    assume "ex_id row \<in> ex_id ` {x0 \<in> set (extractedsource st). ?hit x0}"
    then obtain x0 where "x0 \<in> set (extractedsource st)" "?hit x0" "ex_id row = ex_id x0"
      by blast
    with inj [of x0] show "?hit row" by simp
  next
    assume "?hit row"
    with row show "ex_id row \<in> ex_id ` {x0 \<in> set (extractedsource st). ?hit x0}"
      by blast
  qed
  moreover have "row \<notin> set (extractedsource st') \<longleftrightarrow>
      ex_id row \<in> ex_id ` {x0 \<in> set (extractedsource st). ?hit x0}"
    unfolding filter_ud_Inr [OF run] using row by simp
  ultimately show ?thesis by simp
qed

lemma make_rows_ids:
  "make_rows a i e n results = Inr rows \<Longrightarrow>
     distinct (map ex_id rows) \<and> (\<forall>row \<in> set rows. n \<le> ex_id row \<and> ex_id row < n + int (length rows))"
proof (induction results arbitrary: n rows)
  case Nil
  then show ?case by simp
next
  case (Cons src results)
  from Cons.prems obtain r rs where r: "make_row a i e n src = Inr r"
    and rs: "make_rows a i e (n + 1) results = Inr rs" and rows: "rows = r # rs"
    by (auto split: sum.splits)
  from make_row_Inr(3) [OF r] have id: "ex_id r = n" .
  from Cons.IH [OF rs] have d: "distinct (map ex_id rs)"
    and b: "\<And>row. row \<in> set rs \<Longrightarrow> n + 1 \<le> ex_id row \<and> ex_id row < n + 1 + int (length rs)"
    by auto
  have "ex_id r \<notin> ex_id ` set rs" using b id by force
  with d b id rows show ?case by force
qed

lemma make_rows_types:
  assumes "make_rows a i e n results = Inr rows" and "row \<in> set rows"
  shows "ex_extract_type row \<in> {0, 1, 2}"
proof -
  from make_rows_member [OF assms] obtain k
    where "make_row a i e (n + int k) (results ! k) = Inr row" by blast
  from make_row_Inr(1) [OF this] show ?thesis
    by (auto simp: extract_code_cases)
qed

lemma insert_store_ok:
  assumes "store_ok st"
    and "insert_extracted_sources a i results e st = (Inr lg, st1)"
  shows "store_ok st1"
proof -
  from insert_rows [OF assms(2)] obtain rows
    where rows: "make_rows a i e (next_xtrsrc_id st) results = Inr rows"
      and ext: "extractedsource st1 = extractedsource st @ rows"
      and nxt: "next_xtrsrc_id st1 = next_xtrsrc_id st + int (length rows)"
    by blast
  note ids = make_rows_ids [OF rows]
  from assms(1) have old: "distinct (map ex_id (extractedsource st))"
    "\<And>row. row \<in> set (extractedsource st) \<Longrightarrow> ex_id row < next_xtrsrc_id st"
    by (auto simp: store_ok_def)
  have "ex_id ` set (extractedsource st) \<inter> ex_id ` set rows = {}"
    using old(2) ids by fastforce
  with old(1) ids have "distinct (map ex_id (extractedsource st @ rows))" by simp
  moreover have "\<forall>row \<in> set (extractedsource st @ rows).
      ex_id row < next_xtrsrc_id st + int (length rows)"
    using old(2) ids by fastforce
  ultimately show ?thesis unfolding store_ok_def ext nxt by simp
qed

lemma filter_ud_keeps:
  assumes pk: "distinct (map ex_id (extractedsource st))"
    and row: "row \<in> set (extractedsource st)"
    and gone: "row \<notin> set (extractedsource
                 (snd (filter_userdetections_extracted_sources alpha image_id deRuiter_r assoc_theta st)))"
  shows "ex_extract_type row = 3 \<and> ex_image row = image_id"
proof (cases "filter_userdetections_extracted_sources alpha image_id deRuiter_r assoc_theta st")
  case (Pair res st')
  show ?thesis
  proof (cases res)
    case (Inl e)
    with Pair filter_ud_Inl have "st' = st" by blast
    with Pair row gone show ?thesis by simp
  next
    case (Inr lg)
    with Pair have run: "filter_userdetections_extracted_sources alpha image_id deRuiter_r
        assoc_theta st = (Inr lg, st')" by simp
    from gone Pair have "row \<notin> set (extractedsource st')" by simp
    with filter_ud_removed [OF pk run row] obtain x1
      where "filter_ud_where alpha image_id deRuiter_r assoc_theta (row, x1) = Inr True"
      by blast
    then show ?thesis by (simp add: filter_ud_where_True)
  qed
qed

lemma filter_ud_subset:
  "set (extractedsource
      (snd (filter_userdetections_extracted_sources alpha image_id deRuiter_r assoc_theta st)))
     \<subseteq> set (extractedsource st)"
  by (auto simp: filter_userdetections_extracted_sources_def Let_def split: sum.splits)

text \<open>
  Claim C7. With unique identifiers, every row the deduplication pass removes has
  \<open>extract_type = 3\<close> and belongs to the given image, no row is added or changed, and
  every row a bulk insert has just stored, with type 0, 1 or 2, is still in the table
  after the pass, whatever the image, the radius and the cutoff, and whether or not the
  DELETE statement raises.
\<close>

theorem filter_ud_frame:
  assumes "store_ok st"
  shows "(\<forall>row \<in> set (extractedsource st).
            row \<notin> set (extractedsource (snd
               (filter_userdetections_extracted_sources alpha image_id deRuiter_r assoc_theta st)))
            \<longrightarrow> ex_extract_type row = 3 \<and> ex_image row = image_id)
       \<and> set (extractedsource (snd
               (filter_userdetections_extracted_sources alpha image_id deRuiter_r assoc_theta st)))
            \<subseteq> set (extractedsource st)
       \<and> (\<forall>lg st1. insert_extracted_sources alpha_inflate ins_image results extract st = (Inr lg, st1)
            \<longrightarrow> (\<forall>row \<in> set (extractedsource st1) - set (extractedsource st).
                   ex_extract_type row \<in> {0, 1, 2}
                   \<and> row \<in> set (extractedsource (snd
                        (filter_userdetections_extracted_sources alpha image_id deRuiter_r
                           assoc_theta st1)))))"
proof (intro conjI ballI allI impI)
  fix row
  assume "row \<in> set (extractedsource st)"
    and "row \<notin> set (extractedsource (snd
       (filter_userdetections_extracted_sources alpha image_id deRuiter_r assoc_theta st)))"
  with assms filter_ud_keeps [of st row alpha image_id deRuiter_r assoc_theta]
  show "ex_extract_type row = 3" and "ex_image row = image_id"
    by (simp_all add: store_ok_def)
next
  show "set (extractedsource (snd
           (filter_userdetections_extracted_sources alpha image_id deRuiter_r assoc_theta st)))
        \<subseteq> set (extractedsource st)"
    by (rule filter_ud_subset)
next
  fix lg st1 row
  assume ins: "insert_extracted_sources alpha_inflate ins_image results extract st = (Inr lg, st1)"
    and row: "row \<in> set (extractedsource st1) - set (extractedsource st)"
  from insert_rows [OF ins] obtain rows
    where rows: "make_rows alpha_inflate ins_image extract (next_xtrsrc_id st) results = Inr rows"
      and ext: "extractedsource st1 = extractedsource st @ rows"
    by blast
  from row ext have mem: "row \<in> set rows" by auto
  from make_rows_types [OF rows mem] show ty: "ex_extract_type row \<in> {0, 1, 2}" .
  from insert_store_ok [OF assms ins] have pk: "distinct (map ex_id (extractedsource st1))"
    by (simp add: store_ok_def)
  from row have in1: "row \<in> set (extractedsource st1)" by simp
  show "row \<in> set (extractedsource (snd
          (filter_userdetections_extracted_sources alpha image_id deRuiter_r assoc_theta st1)))"
  proof (rule ccontr)
    assume "\<not> ?thesis"
    from filter_ud_keeps [OF pk in1 this] ty show False by simp
  qed
qed

lemma floor_bands:
  "\<lfloor>(0::real) - 0.03\<rfloor> = -1" "\<lfloor>(0::real) + 0.03\<rfloor> = 0"
  "\<lfloor>(10::real) - 0.03\<rfloor> = 9" "\<lfloor>(10::real) + 0.03\<rfloor> = 10"
  by (simp_all add: floor_eq_iff)

lemma two_fits_rows:
  "extractedsource two_fits_store = [row_origin, row_origin\<lparr>ex_id := 2, ex_extract_type := 1\<rparr>]"
  by (simp add: two_fits_store_def insert_extracted_sources_def make_row_def extract_code_def
      empty_store_def det_origin_def row_origin_def substitute_inf_def eq_to_cart_def radians_def)

lemma two_fits_run:
  "filter_userdetections_extracted_sources (\<lambda>theta decl. theta) 1 3.7 0.03 two_fits_store
     = (Inr [NoUserEntryRemoved 1], two_fits_store)"
  by (simp add: filter_userdetections_extracted_sources_def two_fits_rows filter_ud_where_def
      row_origin_def)

lemma user_entry_run:
  "filter_userdetections_extracted_sources (\<lambda>theta decl. theta) 1 3.7 0.03 user_entry_store
     = (Inr [RemovedSources 1 1],
        user_entry_store\<lparr>extractedsource :=
          [row_origin,
           row_origin\<lparr>ex_id := 2, ex_extract_type := 1\<rparr>,
           row_origin\<lparr>ex_id := 4, ex_decl := 10, ex_zone := 10, ex_x := cos (radians 10),
             ex_z := sin (radians 10), ex_extract_type := 3\<rparr>]\<rparr>)"
  by (simp add: filter_userdetections_extracted_sources_def user_entry_store_def empty_store_def
      filter_ud_where_def filter_ud_bands_def filter_ud_de_ruiter_def de_ruiter_def sql_sqrt_def
      between_def row_origin_def floor_bands)

lemma user_entry_ok: "store_ok user_entry_store"
  by (simp add: store_ok_def user_entry_store_def empty_store_def row_origin_def)

theorem filter_ud_frame_witness:
  "store_ok user_entry_store
   \<and> map ex_extract_type (extractedsource user_entry_store) = [0, 1, 3, 3]
   \<and> map ex_id (extractedsource (snd (filter_userdetections_extracted_sources
        (\<lambda>theta decl. theta) 1 3.7 0.03 user_entry_store))) = [1, 2, 4]"
proof -
  have types: "map ex_extract_type (extractedsource user_entry_store) = [0, 1, 3, 3]"
    by (simp add: user_entry_store_def row_origin_def)
  have ids: "map ex_id (extractedsource (snd (filter_userdetections_extracted_sources
        (\<lambda>theta decl. theta) 1 3.7 0.03 user_entry_store))) = [1, 2, 4]"
    unfolding user_entry_run by (simp add: row_origin_def)
  from filter_ud_frame [OF user_entry_ok, of "\<lambda>theta decl. theta" 1 "3.7" "0.03"
      "\<lambda>theta decl. theta" 1 "[]" "''ff_nd''"] user_entry_ok types ids
  show ?thesis by blast
qed

text \<open>
  Claim C1, as amended. When the pass succeeds, a row is removed if and only if it is a
  row of the image with \<open>extract_type = 3\<close> and some row of the image with type 0, 1 or 2
  lies in its three bands with a midpoint De Ruiter radius below the cutoff. A row of
  type 3 with no such counterpart is kept, and so is every forced-null row, which the
  bulk insert stores with type 1.
\<close>

theorem filter_ud_removes_user_entries:
  assumes "store_ok st"
    and "filter_userdetections_extracted_sources alpha image_id deRuiter_r assoc_theta st
           = (Inr lg, st')"
  shows "\<forall>x0 \<in> set (extractedsource st).
           x0 \<notin> set (extractedsource st') \<longleftrightarrow>
             ex_image x0 = image_id \<and> ex_extract_type x0 = 3
             \<and> (\<exists>x1 \<in> set (extractedsource st).
                   ex_image x1 = image_id \<and> ex_extract_type x1 \<in> {0, 1, 2}
                   \<and> filter_ud_bands alpha assoc_theta x0 x1
                   \<and> (\<exists>v. filter_ud_de_ruiter x0 x1 = Inr v \<and> v < deRuiter_r))"
proof
  fix x0 assume x0: "x0 \<in> set (extractedsource st)"
  from assms(1) have pk: "distinct (map ex_id (extractedsource st))"
    by (simp add: store_ok_def)
  show "x0 \<notin> set (extractedsource st') \<longleftrightarrow>
             ex_image x0 = image_id \<and> ex_extract_type x0 = 3
             \<and> (\<exists>x1 \<in> set (extractedsource st).
                   ex_image x1 = image_id \<and> ex_extract_type x1 \<in> {0, 1, 2}
                   \<and> filter_ud_bands alpha assoc_theta x0 x1
                   \<and> (\<exists>v. filter_ud_de_ruiter x0 x1 = Inr v \<and> v < deRuiter_r))"
    unfolding filter_ud_removed [OF pk assms(2) x0] filter_ud_where_True by blast
qed

theorem filter_ud_removes_user_entries_witness:
  "store_ok user_entry_store
   \<and> map (\<lambda>row. (ex_id row, ex_extract_type row)) (extractedsource user_entry_store)
       = [(1, 0), (2, 1), (3, 3), (4, 3)]
   \<and> map ex_id (extractedsource (snd (filter_userdetections_extracted_sources
        (\<lambda>theta decl. theta) 1 3.7 0.03 user_entry_store))) = [1, 2, 4]"
proof -
  have before: "map (\<lambda>row. (ex_id row, ex_extract_type row)) (extractedsource user_entry_store)
       = [(1, 0), (2, 1), (3, 3), (4, 3)]"
    by (simp add: user_entry_store_def row_origin_def)
  have after: "map ex_id (extractedsource (snd (filter_userdetections_extracted_sources
        (\<lambda>theta decl. theta) 1 3.7 0.03 user_entry_store))) = [1, 2, 4]"
    unfolding user_entry_run by (simp add: row_origin_def)
  from filter_ud_removes_user_entries [OF user_entry_ok user_entry_run] user_entry_ok before after
  show ?thesis by blast
qed

text \<open>
  Claim C1 as stated fails: a forced-null detection inserted at the position of a blind
  detection of the same image lies in its bands at De Ruiter radius 0, and the pass
  removes nothing.
\<close>

theorem forced_null_kept_counterexample:
  "map (\<lambda>row. (ex_id row, ex_image row, ex_extract_type row)) (extractedsource two_fits_store)
     = [(1, 1, 0), (2, 1, 1)]
   \<and> filter_ud_bands (\<lambda>theta decl. theta) 0.03
        (extractedsource two_fits_store ! 1) (extractedsource two_fits_store ! 0)
   \<and> filter_ud_de_ruiter (extractedsource two_fits_store ! 1) (extractedsource two_fits_store ! 0)
        = Inr 0
   \<and> filter_userdetections_extracted_sources (\<lambda>theta decl. theta) 1 3.7 0.03 two_fits_store
        = (Inr [NoUserEntryRemoved 1], two_fits_store)"
proof (intro conjI)
  show "map (\<lambda>row. (ex_id row, ex_image row, ex_extract_type row)) (extractedsource two_fits_store)
     = [(1, 1, 0), (2, 1, 1)]"
    by (simp add: two_fits_rows row_origin_def)
  show "filter_ud_bands (\<lambda>theta decl. theta) 0.03
        (extractedsource two_fits_store ! 1) (extractedsource two_fits_store ! 0)"
    by (simp add: two_fits_rows row_origin_def filter_ud_bands_def between_def floor_bands)
  show "filter_ud_de_ruiter (extractedsource two_fits_store ! 1) (extractedsource two_fits_store ! 0)
        = Inr 0"
    by (simp add: two_fits_rows row_origin_def filter_ud_de_ruiter_def de_ruiter_def sql_sqrt_def)
  show "filter_userdetections_extracted_sources (\<lambda>theta decl. theta) 1 3.7 0.03 two_fits_store
        = (Inr [NoUserEntryRemoved 1], two_fits_store)"
    by (rule two_fits_run)
qed

section \<open>Properties of the catalog cross-match\<close>

lemma select_list_Inr:
  "select_list f xs = Inr ys \<Longrightarrow> map f xs = map Inr ys"
  by (induction xs arbitrary: ys) (auto split: sum.splits)

lemma select_list_set:
  assumes "select_list f xs = Inr ys"
  shows "set ys = {y. \<exists>x \<in> set xs. f x = Inr y}"
proof -
  from select_list_Inr [OF assms] have "Inr ` set ys = f ` set xs"
    by (metis list.set_map)
  then show ?thesis by (auto simp: image_iff) (metis imageI image_iff sum.inject(2))+
qed

lemma match_where_True:
  "match_where alpha runcatid radius deruiter (r, c, k) = Inr True \<longleftrightarrow>
     r_id r = runcatid \<and> match_bands alpha radius r c \<and> match_cone radius r c
     \<and> c_catalog c = k_id k \<and> (\<exists>v. match_de_ruiter r c = Inr v \<and> v < deruiter)"
  by (auto simp: match_where_def split: sum.splits)

lemma match_select_id:
  "match_select (r, c, k) = Inr res \<Longrightarrow> res_catsrcid res = c_id c \<and> res_catid res = c_catalog c"
  by (auto simp: match_select_def split: sum.splits)

text \<open>What a successful call returns: the accepted rows of the join, through the select list.\<close>

lemma match_Inr:
  assumes "match_nearests_in_catalogs alpha runcatid radius deRuiter_r st = (Inr results, st')"
  shows "st' = st"
    and "sorted (map (\<lambda>res. (res_catid res, res_assoc_r res)) results)"
    and "set results = {res. \<exists>r \<in> set (runningcatalog st). \<exists>c \<in> set (catalogedsource st).
            \<exists>k \<in> set (catalog st).
              match_where alpha runcatid radius deRuiter_r (r, c, k) = Inr True
              \<and> match_select (r, c, k) = Inr res}"
proof -
  let ?p = "match_where alpha runcatid radius deRuiter_r"
  let ?xs = "List.product (runningcatalog st) (List.product (catalogedsource st) (catalog st))"
  from assms obtain joined rs where sel: "select_where ?p ?xs = Inr joined"
    and lst: "select_list match_select joined = Inr rs"
    and res: "results = sort_key (\<lambda>res. (res_catid res, res_assoc_r res)) rs"
    and st: "st' = st"
    by (auto simp: match_nearests_in_catalogs_def split: sum.splits)
  show "st' = st" by (rule st)
  show "sorted (map (\<lambda>res. (res_catid res, res_assoc_r res)) results)"
    unfolding res by simp
  have "set results = set rs" unfolding res by simp
  also have "\<dots> = {y. \<exists>x \<in> set joined. match_select x = Inr y}"
    by (rule select_list_set [OF lst])
  also have "set joined = {x \<in> set ?xs. ?p x = Inr True}"
    unfolding select_where_Inr [OF sel] by simp
  finally show "set results = {res. \<exists>r \<in> set (runningcatalog st). \<exists>c \<in> set (catalogedsource st).
            \<exists>k \<in> set (catalog st). ?p (r, c, k) = Inr True \<and> match_select (r, c, k) = Inr res}"
    by auto
qed


lemma eq_to_cart_unit:
  assumes "eq_to_cart ra decl = (x, y, z)"
  shows "x * x + y * y + z * z = 1"
proof -
  define d where "d = radians decl"
  define r where "r = radians ra"
  have xyz: "x = cos d * cos r" "y = cos d * sin r" "z = sin d"
    using assms by (simp_all add: eq_to_cart_def d_def r_def)
  have "x * x + y * y + z * z
          = cos d * cos d * (cos r * cos r + sin r * sin r) + sin d * sin d"
    unfolding xyz by algebra
  also have "\<dots> = 1" by (simp only: sin_cos_squared_add3 mult_1_right)
  finally show ?thesis .
qed

lemma distance_arcsec_unit:
  assumes r: "rx * rx + ry * ry + rz * rz = 1" and c: "cx * cx + cy * cy + cz * cz = 1"
  shows "\<exists>d. distance_arcsec (rx, ry, rz) (cx, cy, cz) = Inr d"
proof -
  define q where "q = (rx - cx) * (rx - cx) + (ry - cy) * (ry - cy) + (rz - cz) * (rz - cz)"
  define q' where "q' = (rx + cx) * (rx + cx) + (ry + cy) * (ry + cy) + (rz + cz) * (rz + cz)"
  have q0: "0 \<le> q" unfolding q_def by simp
  have q'0: "0 \<le> q'" unfolding q'_def by simp
  have "q + q' = 2 * (rx * rx + ry * ry + rz * rz) + 2 * (cx * cx + cy * cy + cz * cz)"
    unfolding q_def q'_def by algebra
  then have "q + q' = 4" using r c by simp
  with q'0 have q4: "q \<le> 2\<^sup>2" by simp
  have le: "sqrt q \<le> 2" by (rule real_le_lsqrt) (use q4 in simp_all)
  have lo: "\<not> sqrt q < - 2" using real_sqrt_ge_zero [OF q0] by linarith
  have hi: "\<not> 2 < sqrt q" using le by linarith
  have nn: "\<not> q < 0" using q0 by linarith
  show ?thesis
    unfolding distance_arcsec_def sql_sqrt_def sql_asin_def prod.case q_def [symmetric]
    using lo hi nn by simp
qed

lemma distance_arcsec_meridian:
  assumes "0 \<le> d" "d \<le> 180"
  shows "distance_arcsec (eq_to_cart 0 0) (eq_to_cart 0 d) = Inr (3600 * d)"
proof -
  define h where "h = radians d / 2"
  have h: "0 \<le> h" "h \<le> pi / 2" using assms by (simp_all add: h_def radians_def)
  have x: "radians d = 2 * h" by (simp add: h_def)
  have r0: "radians 0 = 0" by (simp add: radians_def)
  have s0: "0 \<le> sin h" using h by (intro sin_ge_zero) (use pi_gt_zero in linarith)+
  define q where "q = (1 - cos (2 * h)) * (1 - cos (2 * h)) + (0 - 0) * (0 - 0)
      + (0 - sin (2 * h)) * (0 - sin (2 * h))"
  have "q = 2 - 2 * cos (2 * h) + (cos (2 * h) * cos (2 * h) + sin (2 * h) * sin (2 * h)) - 1"
    unfolding q_def by algebra
  also have "\<dots> = 2 - 2 * cos (2 * h)" by (simp only: sin_cos_squared_add3)
  also have "\<dots> = (2 * sin h)\<^sup>2" by (simp add: cos_double_sin power2_eq_square)
  finally have q: "q = (2 * sin h)\<^sup>2" .
  have sq: "sqrt q = 2 * sin h" unfolding q using s0 by (simp add: real_sqrt_mult)
  have q0: "\<not> q < 0" unfolding q by (simp add: not_less)
  have arcs: "arcsin (sin h) = h" using h by (intro arcsin_sin) linarith+
  have s1: "\<not> 1 < sin h" using sin_le_one [of h] by linarith
  have deg: "3600 * degrees (2 * h) = 3600 * d"
    by (simp add: h_def degrees_def radians_def)
  have e0: "eq_to_cart 0 0 = (1, 0, 0)" by (simp add: eq_to_cart_def r0)
  have ed: "eq_to_cart 0 d = (cos (2 * h), 0, sin (2 * h))" by (simp add: eq_to_cart_def r0 x)
  have chord: "sql_sqrt q = Inr (2 * sin h)" using q0 sq by (simp add: sql_sqrt_def)
  have asin: "sql_asin (2 * sin h / 2) = Inr h"
    using s0 s1 arcs by (simp add: sql_asin_def)
  show ?thesis
    unfolding e0 ed distance_arcsec_def prod.case q_def [symmetric] chord sum.case asin deg
    by (rule refl)
qed


lemma radians_mono: "a < b \<Longrightarrow> radians a < radians b"
  by (simp add: radians_def)

lemma match_cone_meridian:
  assumes "0 \<le> d" "d < radius" "radius \<le> 180"
  shows "match_cone radius (running_source i 0 0 ew ns) (catalog_source j cat 0 d ew' ns')"
proof -
  have r0: "radians 0 = 0" by (simp add: radians_def)
  have "cos (radians radius) < cos (radians d)"
  proof (rule cos_monotone_0_pi)
    show "0 \<le> radians d" using assms by (simp add: radians_def)
    show "radians d < radians radius" using assms by (intro radians_mono)
    show "radians radius \<le> pi" using assms by (simp add: radians_def)
  qed
  then show ?thesis
    by (simp add: match_cone_def running_source_def catalog_source_def eq_to_cart_def r0)
qed

lemma xm_de_ruiter:
  assumes "0 \<le> d"
  shows "de_ruiter m 0 0 0.003 0.003 0 d 0.004 0.004 = Inr (200 * d)"
proof -
  have q: "(0 - 0) * cos (radians m) * (0 - 0) * cos (radians m) / (0.003 * 0.003 + 0.004 * 0.004)
        + (0 - d) * (0 - d) / (0.003 * 0.003 + 0.004 * 0.004) = (200 * d)\<^sup>2"
    by (simp add: power2_eq_square)
  have "sqrt ((200 * d)\<^sup>2) = \<bar>200 * d\<bar>" by (rule real_sqrt_abs)
  then have sq: "sqrt ((200 * d)\<^sup>2) = 200 * d" using assms by simp
  have nz: "(0.003::real) * 0.003 + 0.003 * 0.003 \<noteq> 0 \<and> (0.003::real) * 0.003 + 0.004 * 0.004 \<noteq> 0"
    by simp
  have nn: "\<not> (200 * d)\<^sup>2 < 0" by (simp add: not_less)
  show ?thesis
    unfolding de_ruiter_def q sql_sqrt_def sq using nn by simp
qed

lemma xm_cols:
  "r_id xm_running = 1"
  "c_id (xm_candidate j cat d) = j"
  "c_catalog (xm_candidate j cat d) = cat"
  "c_decl (xm_candidate j cat d) = d"
  by (simp_all add: xm_running_def xm_candidate_def running_source_def catalog_source_def
      eq_to_cart_def)

lemma xm_bands:
  assumes "0 \<le> d" "d \<le> radius"
  shows "match_bands (\<lambda>theta decl. theta) radius xm_running (xm_candidate j cat d)"
proof -
  have "\<lfloor>- radius\<rfloor> \<le> \<lfloor>d\<rfloor>" "\<lfloor>d\<rfloor> \<le> \<lfloor>radius\<rfloor>"
    using assms by (auto intro!: floor_mono)
  then show ?thesis
    using assms by (simp add: match_bands_def between_def xm_running_def xm_candidate_def
        running_source_def catalog_source_def eq_to_cart_def)
qed

lemma xm_cone:
  assumes "0 \<le> d" "d < radius" "radius \<le> 180"
  shows "match_cone radius xm_running (xm_candidate j cat d)"
  unfolding xm_running_def xm_candidate_def by (rule match_cone_meridian) (use assms in simp_all)

lemma xm_match_de_ruiter:
  assumes "0 \<le> d"
  shows "match_de_ruiter xm_running (xm_candidate j cat d) = Inr (200 * d)"
  using xm_de_ruiter [OF assms]
  by (simp add: match_de_ruiter_def xm_running_def xm_candidate_def running_source_def
      catalog_source_def eq_to_cart_def)

lemma xm_where:
  assumes "0 \<le> d" "d < radius" "radius \<le> 180"
  shows "match_where (\<lambda>theta decl. theta) 1 radius cutoff (xm_running, xm_candidate j cat d, k)
         = Inr (cat = k_id k \<and> 200 * d < cutoff)"
proof -
  have bands: "match_bands (\<lambda>theta decl. theta) radius xm_running (xm_candidate j cat d)"
    by (rule xm_bands) (use assms in simp_all)
  show ?thesis
    by (simp add: match_where_def bands xm_cone [OF assms] xm_match_de_ruiter [OF assms(1)]
        xm_cols)
qed

lemma xm_where_out:
  assumes "radius < d"
  shows "match_where (\<lambda>theta decl. theta) 1 radius cutoff (xm_running, xm_candidate j cat d, k)
         = Inr False"
  using assms by (simp add: match_where_def match_bands_def between_def xm_running_def
      xm_candidate_def running_source_def catalog_source_def eq_to_cart_def)

lemma xm_select:
  assumes "0 \<le> d" "d \<le> 180"
  shows "match_select (xm_running, xm_candidate j cat d, k)
         = Inr \<lparr>res_catsrcid = j, res_catsrcname = ''J'', res_catid = cat,
                 res_catname = k_name k, res_ra = 0, res_decl = d,
                 res_uncertainty_ew = 0.004, res_uncertainty_ns = 0.004,
                 res_dist_arcsec = 3600 * d, res_assoc_r = 200 * d\<rparr>"
proof -
  let ?r = "xm_running"
  let ?c = "xm_candidate j cat d"
  have xyz: "(r_x ?r, r_y ?r, r_z ?r) = eq_to_cart 0 0" "(c_x ?c, c_y ?c, c_z ?c) = eq_to_cart 0 d"
    by (simp_all add: xm_running_def xm_candidate_def running_source_def catalog_source_def
        split: prod.splits)
  have ar: "assoc_r ?r ?c = Inr (200 * d)"
    using xm_de_ruiter [OF assms(1)]
    by (simp add: assoc_r_def xm_running_def xm_candidate_def running_source_def
        catalog_source_def eq_to_cart_def)
  have cols: "c_id ?c = j" "c_catsrcname ?c = ''J''" "c_catalog ?c = cat" "c_ra ?c = 0"
    "c_decl ?c = d" "c_uncertainty_ew ?c = 0.004" "c_uncertainty_ns ?c = 0.004"
    by (simp_all add: xm_candidate_def catalog_source_def eq_to_cart_def)
  show ?thesis
    unfolding match_select_def prod.case xyz distance_arcsec_meridian [OF assms] sum.case ar cols
    by (rule refl)
qed

lemma xm_run:
  "match_nearests_in_catalogs (\<lambda>theta decl. theta) 1 0.03 3.7 xm_store =
     (Inr [\<lparr>res_catsrcid = 2, res_catsrcname = ''J'', res_catid = 1, res_catname = ''NVSS'',
            res_ra = 0, res_decl = 0, res_uncertainty_ew = 0.004, res_uncertainty_ns = 0.004,
            res_dist_arcsec = 0, res_assoc_r = 0\<rparr>,
           \<lparr>res_catsrcid = 1, res_catsrcname = ''J'', res_catid = 1, res_catname = ''NVSS'',
            res_ra = 0, res_decl = 0.005, res_uncertainty_ew = 0.004, res_uncertainty_ns = 0.004,
            res_dist_arcsec = 18, res_assoc_r = 1\<rparr>,
           \<lparr>res_catsrcid = 6, res_catsrcname = ''J'', res_catid = 2, res_catname = ''WENSS'',
            res_ra = 0, res_decl = 0, res_uncertainty_ew = 0.004, res_uncertainty_ns = 0.004,
            res_dist_arcsec = 0, res_assoc_r = 0\<rparr>,
           \<lparr>res_catsrcid = 3, res_catsrcname = ''J'', res_catid = 2, res_catname = ''WENSS'',
            res_ra = 0, res_decl = 0.01, res_uncertainty_ew = 0.004, res_uncertainty_ns = 0.004,
            res_dist_arcsec = 36, res_assoc_r = 2\<rparr>], xm_store)"
  by (simp add: match_nearests_in_catalogs_def xm_store_def empty_store_def
      xm_where xm_where_out xm_select)









lemma match_select_assoc_r:
  "match_select (r, c, k) = Inr res \<Longrightarrow> assoc_r r c = Inr (res_assoc_r res)"
  by (auto simp: match_select_def split: sum.splits)

lemma match_length:
  assumes "match_nearests_in_catalogs alpha runcatid radius deRuiter_r st = (Inr results, st')"
  shows "length results = length (filter
           (\<lambda>rck. match_where alpha runcatid radius deRuiter_r rck = Inr True)
           (List.product (runningcatalog st) (List.product (catalogedsource st) (catalog st))))"
proof -
  let ?p = "match_where alpha runcatid radius deRuiter_r"
  let ?xs = "List.product (runningcatalog st) (List.product (catalogedsource st) (catalog st))"
  from assms obtain joined rs where sel: "select_where ?p ?xs = Inr joined"
    and lst: "select_list match_select joined = Inr rs"
    and res: "results = sort_key (\<lambda>res. (res_catid res, res_assoc_r res)) rs"
    by (auto simp: match_nearests_in_catalogs_def split: sum.splits)
  have "length results = length rs" unfolding res by simp
  also have "\<dots> = length (map Inr rs :: (error + match) list)" by simp
  also have "\<dots> = length joined" unfolding select_list_Inr [OF lst, symmetric] by simp
  finally show ?thesis unfolding select_where_Inr [OF sel] .
qed

text \<open>
  Claim C8. The returned list is ordered by catalog, and within a catalog by ascending
  \<open>assoc_r\<close>, the De Ruiter radius the query returns, which is computed with the cosine
  at the declination of the running source. Every result is a catalog source accepted
  for the running source, and every accepted row of the join is returned: the list has
  as many entries as the join has accepted rows, none is singled out.
\<close>

theorem match_results_ordered:
  assumes run: "match_nearests_in_catalogs alpha runcatid radius deRuiter_r st = (Inr results, st')"
  shows "(\<forall>i j. i < j \<and> j < length results \<longrightarrow>
            res_catid (results ! i) < res_catid (results ! j)
            \<or> (res_catid (results ! i) = res_catid (results ! j)
               \<and> res_assoc_r (results ! i) \<le> res_assoc_r (results ! j)))
         \<and> (\<forall>res \<in> set results. \<exists>r \<in> set (runningcatalog st). \<exists>c \<in> set (catalogedsource st).
              r_id r = runcatid \<and> c_id c = res_catsrcid res \<and> c_catalog c = res_catid res
              \<and> assoc_r r c = Inr (res_assoc_r res))
         \<and> length results = length (filter
              (\<lambda>rck. match_where alpha runcatid radius deRuiter_r rck = Inr True)
              (List.product (runningcatalog st) (List.product (catalogedsource st) (catalog st))))"
proof (intro conjI allI impI ballI)
  fix i j assume ij: "i < j \<and> j < length results"
  let ?key = "\<lambda>res. (res_catid res, res_assoc_r res)"
  from match_Inr(2) [OF run] ij have "map ?key results ! i \<le> map ?key results ! j"
    unfolding sorted_iff_nth_mono_less by simp
  with ij have "?key (results ! i) \<le> ?key (results ! j)" by simp
  then show "res_catid (results ! i) < res_catid (results ! j)
            \<or> (res_catid (results ! i) = res_catid (results ! j)
               \<and> res_assoc_r (results ! i) \<le> res_assoc_r (results ! j))"
    by auto
next
  fix res assume "res \<in> set results"
  then obtain r c k where mem: "r \<in> set (runningcatalog st)" "c \<in> set (catalogedsource st)"
    and acc: "match_where alpha runcatid radius deRuiter_r (r, c, k) = Inr True"
    and sel: "match_select (r, c, k) = Inr res"
    unfolding match_Inr(3) [OF run] by blast
  from acc have "r_id r = runcatid" unfolding match_where_True by simp
  with mem match_select_id [OF sel] match_select_assoc_r [OF sel]
  show "\<exists>r \<in> set (runningcatalog st). \<exists>c \<in> set (catalogedsource st).
              r_id r = runcatid \<and> c_id c = res_catsrcid res \<and> c_catalog c = res_catid res
              \<and> assoc_r r c = Inr (res_assoc_r res)"
    by force
next
  show "length results = length (filter
              (\<lambda>rck. match_where alpha runcatid radius deRuiter_r rck = Inr True)
              (List.product (runningcatalog st) (List.product (catalogedsource st) (catalog st))))"
    by (rule match_length [OF run])
qed

theorem match_results_ordered_witness:
  "(\<exists>results. match_nearests_in_catalogs (\<lambda>theta decl. theta) 1 0.03 3.7 xm_store
        = (Inr results, xm_store)
      \<and> map (\<lambda>res. (res_catid res, res_catsrcid res, res_assoc_r res)) results
          = [(1, 2, 0), (1, 1, 1), (2, 6, 0), (2, 3, 2)])
   \<and> length (filter (\<lambda>rck. match_where (\<lambda>theta decl. theta) 1 0.03 3.7 rck = Inr True)
        (List.product (runningcatalog xm_store)
           (List.product (catalogedsource xm_store) (catalog xm_store)))) = 4"
proof -
  have run: "\<exists>results. match_nearests_in_catalogs (\<lambda>theta decl. theta) 1 0.03 3.7 xm_store
        = (Inr results, xm_store)
      \<and> map (\<lambda>res. (res_catid res, res_catsrcid res, res_assoc_r res)) results
          = [(1, 2, 0), (1, 1, 1), (2, 6, 0), (2, 3, 2)]"
    unfolding xm_run by simp
  from match_results_ordered [OF xm_run] run show ?thesis by simp
qed

text \<open>
  The order is the order of the returned column, not of the radius the WHERE clause
  compares with the cutoff, which has the cosine at the midpoint declination. At the
  pole the returned radius ignores the offset in right ascension: \<open>pole_a\<close> comes first
  with \<open>assoc_r = 2\<close>, before \<open>pole_b\<close> with 2.25, while the midpoint radius of \<open>pole_a\<close>
  is above 2.25, the midpoint radius of \<open>pole_b\<close>.
\<close>

lemma sin_lower: "0 \<le> x \<Longrightarrow> x - x ^ 3 / 6 \<le> sin (x::real)"
proof -
  assume x: "0 \<le> x"
  have "\<bar>sin x - (\<Sum>m<3. sin_coeff m * x ^ m)\<bar> \<le> inverse (fact 3) * \<bar>x\<bar> ^ 3"
    by (rule Maclaurin_sin_bound)
  moreover have "(\<Sum>m<3. sin_coeff m * x ^ m) = x"
    by (simp add: sin_coeff_def eval_nat_numeral)
  moreover have "inverse (fact 3) * \<bar>x\<bar> ^ 3 = x ^ 3 / 6"
    using x by (simp add: eval_nat_numeral)
  ultimately show ?thesis by linarith
qed

lemma sin_hundredth_degree:
  "11 / 100000 \<le> sin (radians 0.01)" "sin (radians 0.01) \<le> 1 / 4500"
proof -
  define x where "x = radians 0.01"
  have lo: "1 / 9000 \<le> x" using pi_ge_two by (simp add: x_def radians_def)
  have hi: "x \<le> 1 / 4500" using pi_less_4 by (simp add: x_def radians_def)
  have x0: "0 \<le> x" using lo by linarith
  have "x * x \<le> (1 / 4500) * (1 / 4500)" using x0 hi by (intro mult_mono) simp_all
  then have "x * x / 6 \<le> 1 / 100" by simp
  then have "99 / 100 \<le> 1 - x * x / 6" by simp
  then have "x * (99 / 100) \<le> x * (1 - x * x / 6)" using x0 by (intro mult_left_mono)
  also have "\<dots> = x - x ^ 3 / 6" by (simp add: algebra_simps power3_eq_cube)
  also have "\<dots> \<le> sin x" by (rule sin_lower [OF x0])
  finally have "x * (99 / 100) \<le> sin x" .
  with lo show "11 / 100000 \<le> sin (radians 0.01)" unfolding x_def by simp
  from sin_x_le_x [OF x0] hi show "sin (radians 0.01) \<le> 1 / 4500" unfolding x_def by simp
qed

lemma pole_xyz:
  "(r_x pole_running, r_y pole_running, r_z pole_running) = (0, 0, 1)"
  by (simp add: pole_running_def running_source_def eq_to_cart_def radians_def)

lemma pole_cone:
  assumes "c = catalog_source i cat ra decl ew ns" "89.97 < decl" "decl \<le> 90"
  shows "match_cone 0.03 pole_running c"
proof -
  have z: "c_z c = sin (radians decl)" unfolding assms(1)
    by (simp add: catalog_source_def eq_to_cart_def)
  have "sin (radians decl) = cos (radians (90 - decl))"
    unfolding sin_cos_eq [of "radians decl"] by (simp add: radians_def field_simps)
  moreover have "cos (radians 0.03) < cos (radians (90 - decl))"
  proof (rule cos_monotone_0_pi)
    show "0 \<le> radians (90 - decl)" using assms by (simp add: radians_def)
    show "radians (90 - decl) < radians 0.03" using assms by (intro radians_mono) simp
    show "radians 0.03 \<le> pi" by (simp add: radians_def)
  qed
  ultimately have "cos (radians 0.03) < c_z c" unfolding z by simp
  moreover have "r_x pole_running = 0" "r_y pole_running = 0" "r_z pole_running = 1"
    using pole_xyz by simp_all
  ultimately show ?thesis by (simp add: match_cone_def)
qed

lemma pole_bands:
  "match_bands (\<lambda>theta decl. 180) 0.03 pole_running pole_a"
  "match_bands (\<lambda>theta decl. 180) 0.03 pole_running pole_b"
  by (simp_all add: match_bands_def between_def pole_running_def pole_a_def pole_b_def
      running_source_def catalog_source_def eq_to_cart_def floor_eq_iff)

lemma sql_sqrt_square:
  assumes "0 \<le> v" "q = v\<^sup>2"
  shows "sql_sqrt q = Inr v"
proof -
  have "sqrt (v\<^sup>2) = \<bar>v\<bar>" by (rule real_sqrt_abs)
  then have "sqrt q = v" using assms by simp
  moreover have "\<not> q < 0" unfolding assms(2) by (simp add: not_less)
  ultimately show ?thesis by (simp add: sql_sqrt_def)
qed

lemma pole_assoc_r:
  "assoc_r pole_running pole_a = Inr 2"
  "assoc_r pole_running pole_b = Inr 2.25"
proof -
  have c90: "cos (radians 90) = 0" by (simp add: radians_def)
  have "sql_sqrt ((0 - 100) * cos (radians 90) * (0 - 100) * cos (radians 90)
          / (0.006 * 0.006 + 0.008 * 0.008)
        + (90 - 89.98) * (90 - 89.98) / (0.006 * 0.006 + 0.008 * 0.008)) = Inr 2"
    unfolding c90 by (rule sql_sqrt_square) (simp_all add: power2_eq_square)
  then show "assoc_r pole_running pole_a = Inr 2"
    by (simp add: assoc_r_def de_ruiter_def pole_running_def pole_a_def running_source_def
        catalog_source_def eq_to_cart_def)
  have "sql_sqrt ((0 - 0) * cos (radians 90) * (0 - 0) * cos (radians 90)
          / (0.006 * 0.006 + 0.008 * 0.008)
        + (90 - 89.9775) * (90 - 89.9775) / (0.006 * 0.006 + 0.008 * 0.008)) = Inr 2.25"
    by (rule sql_sqrt_square) (simp_all add: power2_eq_square)
  then show "assoc_r pole_running pole_b = Inr 2.25"
    by (simp add: assoc_r_def de_ruiter_def pole_running_def pole_b_def running_source_def
        catalog_source_def eq_to_cart_def)
qed

lemma pole_de_ruiter_b: "match_de_ruiter pole_running pole_b = Inr 2.25"
proof -
  have "sql_sqrt ((0 - 0) * cos (radians ((90 + 89.9775) / 2)) * (0 - 0)
            * cos (radians ((90 + 89.9775) / 2)) / (0.006 * 0.006 + 0.008 * 0.008)
        + (90 - 89.9775) * (90 - 89.9775) / (0.006 * 0.006 + 0.008 * 0.008)) = Inr 2.25"
    by (rule sql_sqrt_square) (simp_all add: power2_eq_square)
  then show ?thesis
    by (simp add: match_de_ruiter_def de_ruiter_def pole_running_def pole_b_def
        running_source_def catalog_source_def eq_to_cart_def)
qed

lemma pole_de_ruiter_a:
  "\<exists>v. match_de_ruiter pole_running pole_a = Inr v \<and> 2.25 < v \<and> v < 3.7"
proof -
  define s where "s = sin (radians 0.01)"
  define q where "q = (0 - 100) * s * (0 - 100) * s / (0.006 * 0.006 + 0.008 * 0.008)
        + (90 - 89.98) * (90 - 89.98) / (0.006 * 0.006 + 0.008 * 0.008)"
  have mid: "cos (radians (8999 / 100)) = s"
    unfolding s_def cos_sin_eq [of "radians (8999 / 100)"]
    by (simp add: radians_def field_simps)
  have s: "11 / 100000 \<le> s" "s \<le> 1 / 4500"
    unfolding s_def by (rule sin_hundredth_degree)+
  have s0: "0 \<le> s" using s(1) by linarith
  have lo: "(11 / 100000) * (11 / 100000) \<le> s * s" using s(1) by (intro mult_mono) simp_all
  have hi: "s * s \<le> (1 / 4500) * (1 / 4500)" using s(2) s0 by (intro mult_mono) simp_all
  have q: "q = 100000000 * (s * s) + 4" unfolding q_def by simp
  have q0: "0 \<le> q" unfolding q using s0 by simp
  have "(2.25::real)\<^sup>2 < q" unfolding q using lo by (simp add: power2_eq_square)
  then have l: "2.25 < sqrt q" by (rule real_less_rsqrt)
  have "q < 3.7\<^sup>2" unfolding q using hi by (simp add: power2_eq_square)
  then have u: "sqrt q < 3.7" by (intro real_less_lsqrt) simp_all
  have "match_de_ruiter pole_running pole_a = sql_sqrt q"
    by (simp add: match_de_ruiter_def de_ruiter_def pole_running_def pole_a_def
        running_source_def catalog_source_def eq_to_cart_def mid q_def)
  moreover have "sql_sqrt q = Inr (sqrt q)" using q0 by (simp add: sql_sqrt_def)
  ultimately show ?thesis using l u by simp
qed


lemma pole_select:
  assumes c: "c = catalog_source i cat ra decl ew ns" and a: "assoc_r pole_running c = Inr v"
  shows "\<exists>res. match_select (pole_running, c, k) = Inr res
           \<and> res_catid res = cat \<and> res_catsrcid res = i \<and> res_assoc_r res = v"
proof -
  obtain x y z where xyz: "eq_to_cart ra decl = (x, y, z)" by (cases "eq_to_cart ra decl") auto
  have cx: "c_x c = x" "c_y c = y" "c_z c = z" "c_id c = i" "c_catalog c = cat"
    unfolding c by (simp_all add: catalog_source_def xyz)
  have rx: "r_x pole_running = 0" "r_y pole_running = 0" "r_z pole_running = 1"
    using pole_xyz by simp_all
  have "\<exists>d. distance_arcsec (0, 0, 1) (x, y, z) = Inr d"
    by (rule distance_arcsec_unit) (simp_all add: eq_to_cart_unit [OF xyz])
  then obtain d where d: "distance_arcsec (0, 0, 1) (x, y, z) = Inr d" ..
  show ?thesis by (simp add: match_select_def cx rx d a)
qed

lemma pole_where:
  "match_where (\<lambda>theta decl. 180) 1 0.03 3.7 (pole_running, pole_a, \<lparr>k_id = 1, k_name = ''NVSS''\<rparr>)
     = Inr True"
  "match_where (\<lambda>theta decl. 180) 1 0.03 3.7 (pole_running, pole_b, \<lparr>k_id = 1, k_name = ''NVSS''\<rparr>)
     = Inr True"
proof -
  have ids: "r_id pole_running = 1" "c_catalog pole_a = 1" "c_catalog pole_b = 1"
    by (simp_all add: pole_running_def pole_a_def pole_b_def running_source_def
        catalog_source_def eq_to_cart_def)
  have cone: "match_cone 0.03 pole_running pole_a" "match_cone 0.03 pole_running pole_b"
    by (rule pole_cone [OF pole_a_def], simp, simp) (rule pole_cone [OF pole_b_def], simp, simp)
  from pole_de_ruiter_a obtain v where v: "match_de_ruiter pole_running pole_a = Inr v" "v < 3.7"
    by blast
  show "match_where (\<lambda>theta decl. 180) 1 0.03 3.7
          (pole_running, pole_a, \<lparr>k_id = 1, k_name = ''NVSS''\<rparr>) = Inr True"
    unfolding match_where_True using ids cone(1) pole_bands(1) v by simp
  show "match_where (\<lambda>theta decl. 180) 1 0.03 3.7
          (pole_running, pole_b, \<lparr>k_id = 1, k_name = ''NVSS''\<rparr>) = Inr True"
  proof -
    have "\<exists>v. match_de_ruiter pole_running pole_b = Inr v \<and> v < 3.7"
      by (rule exI [of _ "2.25"]) (simp add: pole_de_ruiter_b)
    then show ?thesis
      unfolding match_where_True using ids cone(2) pole_bands(2) by simp
  qed
qed

lemma pole_run:
  "\<exists>results. match_nearests_in_catalogs (\<lambda>theta decl. 180) 1 0.03 3.7 pole_store
        = (Inr results, pole_store)
      \<and> map (\<lambda>res. (res_catid res, res_catsrcid res, res_assoc_r res)) results
          = [(1, 1, 2), (1, 2, 2.25)]"
proof -
  let ?k = "\<lparr>k_id = 1, k_name = ''NVSS''\<rparr>"
  from pole_select [OF pole_a_def pole_assoc_r(1), of ?k] obtain resa
    where resa: "match_select (pole_running, pole_a, ?k) = Inr resa"
      "res_catid resa = 1" "res_catsrcid resa = 1" "res_assoc_r resa = 2" by blast
  from pole_select [OF pole_b_def pole_assoc_r(2), of ?k] obtain resb
    where resb: "match_select (pole_running, pole_b, ?k) = Inr resb"
      "res_catid resb = 1" "res_catsrcid resb = 2" "res_assoc_r resb = 2.25" by blast
  have join: "List.product (runningcatalog pole_store)
      (List.product (catalogedsource pole_store) (catalog pole_store))
      = [(pole_running, pole_b, ?k), (pole_running, pole_a, ?k)]"
    by (simp add: pole_store_def)
  have sel: "select_where (match_where (\<lambda>theta decl. 180) 1 0.03 3.7)
        [(pole_running, pole_b, ?k), (pole_running, pole_a, ?k)]
      = Inr [(pole_running, pole_b, ?k), (pole_running, pole_a, ?k)]"
    by (simp only: select_where.simps pole_where sum.case if_True)
  have lst: "select_list match_select [(pole_running, pole_b, ?k), (pole_running, pole_a, ?k)]
      = Inr [resb, resa]"
    by (simp only: select_list.simps resa(1) resb(1) sum.case)
  have srt: "sort_key (\<lambda>res. (res_catid res, res_assoc_r res)) [resb, resa] = [resa, resb]"
    by (simp add: resa resb)
  have "match_nearests_in_catalogs (\<lambda>theta decl. 180) 1 0.03 3.7 pole_store
      = (Inr [resa, resb], pole_store)"
    unfolding match_nearests_in_catalogs_def join sel sum.case lst srt by (rule refl)
  then show ?thesis by (simp add: resa resb)
qed

theorem first_result_not_best_counterexample:
  "(\<exists>results. match_nearests_in_catalogs (\<lambda>theta decl. 180) 1 0.03 3.7 pole_store
        = (Inr results, pole_store)
      \<and> map (\<lambda>res. (res_catid res, res_catsrcid res, res_assoc_r res)) results
          = [(1, 1, 2), (1, 2, 2.25)])
   \<and> map c_id (catalogedsource pole_store) = [2, 1]
   \<and> match_de_ruiter pole_running pole_b = Inr 2.25
   \<and> (\<exists>v. match_de_ruiter pole_running pole_a = Inr v \<and> 2.25 < v \<and> v < 3.7)"
proof (intro conjI)
  show "\<exists>results. match_nearests_in_catalogs (\<lambda>theta decl. 180) 1 0.03 3.7 pole_store
        = (Inr results, pole_store)
      \<and> map (\<lambda>res. (res_catid res, res_catsrcid res, res_assoc_r res)) results
          = [(1, 1, 2), (1, 2, 2.25)]"
    by (rule pole_run)
  show "map c_id (catalogedsource pole_store) = [2, 1]"
    by (simp add: pole_store_def pole_a_def pole_b_def catalog_source_def eq_to_cart_def)
  show "match_de_ruiter pole_running pole_b = Inr 2.25" by (rule pole_de_ruiter_b)
  show "\<exists>v. match_de_ruiter pole_running pole_a = Inr v \<and> 2.25 < v \<and> v < 3.7"
    by (rule pole_de_ruiter_a)
qed

section \<open>Properties of the spatial bands\<close>

lemma angular_separation_eq:
  "angular_separation ra1 d1 ra2 d2 =
     degrees (arccos (cos (radians d1) * cos (radians d2) * cos (radians ra1 - radians ra2)
                      + sin (radians d1) * sin (radians d2)))"
proof -
  have "cos (radians d1) * cos (radians ra1) * (cos (radians d2) * cos (radians ra2))
        + cos (radians d1) * sin (radians ra1) * (cos (radians d2) * sin (radians ra2))
        + sin (radians d1) * sin (radians d2)
      = cos (radians d1) * cos (radians d2)
          * (cos (radians ra1) * cos (radians ra2) + sin (radians ra1) * sin (radians ra2))
        + sin (radians d1) * sin (radians d2)"
    by algebra
  then show ?thesis
    by (simp only: angular_separation_def eq_to_cart_def prod.case cos_diff)
qed

lemma radians_le: "a \<le> b \<Longrightarrow> radians a \<le> radians b"
  by (simp add: radians_def divide_right_mono mult_right_mono)

lemma radians_quarter: "radians (- 90) = - (pi / 2)" "radians 90 = pi / 2"
  by (simp_all add: radians_def)









text \<open>
  For positions with their Cartesian coordinates, the cone conjunct of the cross-match
  says that the separation is below the search radius.
\<close>

lemma separation_cosine_bounds:
  assumes w: "- 1 \<le> w" "w \<le> 1"
    and d1: "-90 \<le> d1" "d1 \<le> 90" and d2: "-90 \<le> d2" "d2 \<le> 90"
  shows "- 1 \<le> cos (radians d1) * cos (radians d2) * w + sin (radians d1) * sin (radians d2)"
    and "cos (radians d1) * cos (radians d2) * w + sin (radians d1) * sin (radians d2) \<le> 1"
proof -
  define a where "a = radians d1"
  define b where "b = radians d2"
  have a: "- (pi / 2) \<le> a" "a \<le> pi / 2"
    using radians_le [OF d1(1)] radians_le [OF d1(2)] by (simp_all add: a_def radians_quarter)
  have b: "- (pi / 2) \<le> b" "b \<le> pi / 2"
    using radians_le [OF d2(1)] radians_le [OF d2(2)] by (simp_all add: b_def radians_quarter)
  have cab: "0 \<le> cos a * cos b" using cos_ge_zero [OF a] cos_ge_zero [OF b] by simp
  have "cos a * cos b * w \<le> cos a * cos b * 1" using cab w(2) by (intro mult_left_mono)
  then have "cos a * cos b * w + sin a * sin b \<le> cos (a - b)" unfolding cos_diff by simp
  moreover have "cos (a - b) \<le> 1" by simp
  ultimately show "cos (radians d1) * cos (radians d2) * w
      + sin (radians d1) * sin (radians d2) \<le> 1"
    unfolding a_def b_def by linarith
  have "cos a * cos b * (- 1) \<le> cos a * cos b * w" using cab w(1) by (intro mult_left_mono)
  then have "- cos (a + b) \<le> cos a * cos b * w + sin a * sin b" unfolding cos_add by simp
  moreover have "cos (a + b) \<le> 1" by simp
  ultimately show "- 1 \<le> cos (radians d1) * cos (radians d2) * w
      + sin (radians d1) * sin (radians d2)"
    unfolding a_def b_def by linarith
qed

lemma match_cone_separation:
  assumes d1: "-90 \<le> d1" "d1 \<le> 90" and d2: "-90 \<le> d2" "d2 \<le> 90"
    and radius: "0 \<le> radius" "radius \<le> 180"
  shows "match_cone radius (running_source i ra1 d1 ew ns) (catalog_source j cat ra2 d2 ew' ns')
           \<longleftrightarrow> angular_separation ra1 d1 ra2 d2 < radius"
proof -
  define dot where "dot = cos (radians d1) * cos (radians d2) * cos (radians ra1 - radians ra2)
      + sin (radians d1) * sin (radians d2)"
  have bounds: "- 1 \<le> dot" "dot \<le> 1"
    unfolding dot_def by (rule separation_cosine_bounds [OF _ _ d1 d2]; simp)+
  let ?r = "running_source i ra1 d1 ew ns"
  let ?c = "catalog_source j cat ra2 d2 ew' ns'"
  have xyz: "r_x ?r = cos (radians d1) * cos (radians ra1)"
    "r_y ?r = cos (radians d1) * sin (radians ra1)" "r_z ?r = sin (radians d1)"
    "c_x ?c = cos (radians d2) * cos (radians ra2)"
    "c_y ?c = cos (radians d2) * sin (radians ra2)" "c_z ?c = sin (radians d2)"
    by (simp_all add: running_source_def catalog_source_def eq_to_cart_def)
  have eq: "c_x ?c * r_x ?r + c_y ?c * r_y ?r + c_z ?c * r_z ?r = dot"
    unfolding xyz dot_def cos_diff by algebra
  have cone: "match_cone radius ?r ?c \<longleftrightarrow> cos (radians radius) < dot"
    unfolding match_cone_def eq by (rule refl)
  have r: "0 \<le> radians radius" "radians radius \<le> pi" using radius by (simp_all add: radians_def)
  have ac: "0 \<le> arccos dot" "arccos dot \<le> pi" using arccos_bounded [OF bounds] by simp_all
  have "cos (radians radius) < dot \<longleftrightarrow> cos (radians radius) < cos (arccos dot)"
    using cos_arccos [OF bounds] by simp
  also have "\<dots> \<longleftrightarrow> arccos dot < radians radius" by (rule cos_mono_less_eq [OF r ac])
  also have "\<dots> \<longleftrightarrow> degrees (arccos dot) < radius"
    using pi_gt_zero by (simp add: degrees_def radians_def field_simps)
  finally show ?thesis unfolding cone angular_separation_eq dot_def .
qed






end
